theory Spec2Isabelle
  imports Complex_Main
begin

section \<open>The equation evaluator of \<^verbatim>\<open>src/js/equations.js\<close>\<close>

text \<open>
  The module exports one function, \<^verbatim>\<open>evaluateEquation(equation, variables, dependencies)\<close>,
  whose body declares five nested helpers: \<^verbatim>\<open>substituteVariables\<close>, \<^verbatim>\<open>checkParentheses\<close>,
  \<^verbatim>\<open>resolveParentheses\<close>, \<^verbatim>\<open>evaluateOperations\<close> and \<^verbatim>\<open>parseValue\<close>. They rewrite the
  equation text until a number is left. The embedding below keeps that structure:

  \<^item> a JavaScript string is a \<open>string\<close>, one \<open>char\<close> per code unit (code units 0 to 255);
  \<^item> a thrown \<^verbatim>\<open>Error\<close> is a value of the datatype \<open>error\<close>, one constructor per
    \<^verbatim>\<open>throw\<close> statement of the source, results are sums with \<open>Inl\<close> for the error;
  \<^item> the \<open>variables\<close> object is a map from names to records; the function mutates it, so the
    model returns the mapping as it is when the call returns or throws;
  \<^item> the \<^verbatim>\<open>while\<close> loop of \<^verbatim>\<open>substituteVariables\<close> and the recursion of all functions
    are recursion on a fuel argument; the value \<open>None\<close> means that the fuel ran out;
  \<^item> the primitives of the language on Numbers (\<^verbatim>\<open>Number(text)\<close>, the conversion of a Number
    to text, \<^verbatim>\<open>isNaN\<close>, the arithmetic operators, \<^verbatim>\<open>Math.pow\<close>, \<^verbatim>\<open>Math.floor\<close>) are not code
    of the module. The functions take them as a parameter \<open>rt\<close>, a record of functions over
    an arbitrary type of Numbers, so general theorems hold for every behaviour of the
    primitives. Concrete evaluations use the instance \<open>js\<close> defined below.

  The debugging counter \<^verbatim>\<open>DEBUGTAB\<close> and the function \<^verbatim>\<open>log\<close> (never called) have no effect on
  results and are left out.
\<close>

subsection \<open>Strings\<close>

text \<open>\<^verbatim>\<open>String.prototype.indexOf\<close> for a one-character needle: the first position, or -1.\<close>

fun indexOf :: "string \<Rightarrow> char \<Rightarrow> int" where
  "indexOf [] c = - 1"
| "indexOf (x # xs) c =
     (if x = c then 0 else (let i = indexOf xs c in if i < 0 then - 1 else i + 1))"

text \<open>
  \<^verbatim>\<open>String.prototype.slice(start, end)\<close>: a negative position counts from the end of the
  string, positions are clamped to the string, and an empty string results when the end is
  not after the start. \<open>slice_from\<close> is the call with one argument.
\<close>

definition slice :: "string \<Rightarrow> int \<Rightarrow> int \<Rightarrow> string" where
  "slice s start fin =
     (let len = int (length s);
          from = (if start < 0 then max (len + start) 0 else min start len);
          to = (if fin < 0 then max (len + fin) 0 else min fin len)
      in take (nat (to - from)) (drop (nat from) s))"

definition slice_from :: "string \<Rightarrow> int \<Rightarrow> string" where
  "slice_from s start = slice s start (int (length s))"

text \<open>\<^verbatim>\<open>s.startsWith("=")\<close>.\<close>

definition startsWith :: "string \<Rightarrow> string \<Rightarrow> bool" where
  "startsWith s p = (take (length p) s = p)"

text \<open>
  Character classes. \<^verbatim>\<open>\s\<close> and \<^verbatim>\<open>trim\<close> use the same set, white space and line
  terminators: of the code units below 256 these are TAB, LF, VT, FF, CR, SPACE and NBSP.
\<close>

definition is_digit :: "char \<Rightarrow> bool" where
  "is_digit c = (48 \<le> (of_char c :: nat) \<and> (of_char c :: nat) \<le> 57)"

definition is_lower :: "char \<Rightarrow> bool" where
  "is_lower c = (97 \<le> (of_char c :: nat) \<and> (of_char c :: nat) \<le> 122)"

definition is_upper :: "char \<Rightarrow> bool" where
  "is_upper c = (65 \<le> (of_char c :: nat) \<and> (of_char c :: nat) \<le> 90)"

definition is_space :: "char \<Rightarrow> bool" where
  "is_space c = ((of_char c :: nat) \<in> {9, 10, 11, 12, 13, 32, 160})"

definition trim :: "string \<Rightarrow> string" where
  "trim s = rev (dropWhile is_space (rev (dropWhile is_space s)))"

subsection \<open>Regular expressions\<close>

text \<open>
  The constructs the two regular expressions of the module use, and a backtracking matcher
  for them. A quantifier is greedy: it first takes as much as it can and gives characters back
  one at a time while the rest of the pattern fails.
\<close>

datatype regex =
    AssertStart                   \<comment> \<open>\<^verbatim>\<open>^\<close>\<close>
  | Lit char                      \<comment> \<open>an escaped or plain character\<close>
  | Class "char \<Rightarrow> bool"         \<comment> \<open>\<^verbatim>\<open>[class]\<close>\<close>
  | Plus "char \<Rightarrow> bool"          \<comment> \<open>\<^verbatim>\<open>[class]+\<close>\<close>
  | Star "char \<Rightarrow> bool"          \<comment> \<open>\<^verbatim>\<open>[class]*\<close>\<close>
  | Opt regex                     \<comment> \<open>\<^verbatim>\<open>(?:r)?\<close>\<close>
  | Seq regex regex
  | Named string regex            \<comment> \<open>\<^verbatim>\<open>(?<name>r)\<close>\<close>

text \<open>
  The state of a match attempt: the position in the whole text, the text from that position
  on, and the named groups captured so far.
\<close>

type_synonym mstate = "nat \<times> string \<times> (string \<times> string) list"

text \<open>\<open>try_down f n\<close> is the first success among \<open>f n\<close>, \<open>f (n - 1)\<close>, ..., \<open>f 0\<close>.\<close>

primrec try_down :: "(nat \<Rightarrow> 'a option) \<Rightarrow> nat \<Rightarrow> 'a option" where
  "try_down f 0 = f 0"
| "try_down f (Suc n) = (case f (Suc n) of Some r \<Rightarrow> Some r | None \<Rightarrow> try_down f n)"

text \<open>\<open>rmatch r k st\<close> matches \<open>r\<close> from state \<open>st\<close> and continues with \<open>k\<close>.\<close>

fun rmatch :: "regex \<Rightarrow> (mstate \<Rightarrow> mstate option) \<Rightarrow> mstate \<Rightarrow> mstate option" where
  "rmatch AssertStart k (i, s, g) = (if i = 0 then k (i, s, g) else None)"
| "rmatch (Lit c) k (i, s, g) =
     (case s of [] \<Rightarrow> None | x # xs \<Rightarrow> if x = c then k (Suc i, xs, g) else None)"
| "rmatch (Class P) k (i, s, g) =
     (case s of [] \<Rightarrow> None | x # xs \<Rightarrow> if P x then k (Suc i, xs, g) else None)"
| "rmatch (Plus P) k (i, s, g) =
     try_down (\<lambda>n. if n = 0 then None else k (i + n, drop n s, g)) (length (takeWhile P s))"
| "rmatch (Star P) k (i, s, g) =
     try_down (\<lambda>n. k (i + n, drop n s, g)) (length (takeWhile P s))"
| "rmatch (Opt r) k st = (case rmatch r k st of Some m \<Rightarrow> Some m | None \<Rightarrow> k st)"
| "rmatch (Seq r1 r2) k st = rmatch r1 (\<lambda>st'. rmatch r2 k st') st"
| "rmatch (Named n r) k (i, s, g) =
     rmatch r (\<lambda>(j, s', g'). k (j, s', (n, take (j - i) s) # g')) (i, s, g)"

text \<open>
  The result of \<^verbatim>\<open>RegExp.prototype.exec\<close>: \<^verbatim>\<open>m.index\<close>, the matched text \<^verbatim>\<open>m[0]\<close> and
  \<^verbatim>\<open>m.groups\<close>.
\<close>

record regmatch =
  index :: nat
  matched :: string
  groups :: "(string \<times> string) list"

definition match_at :: "regex \<Rightarrow> string \<Rightarrow> nat \<Rightarrow> regmatch option" where
  "match_at r s i =
     (case rmatch r Some (i, drop i s, []) of
        None \<Rightarrow> None
      | Some (j, rest, g) \<Rightarrow> Some \<lparr>index = i, matched = take (j - i) (drop i s), groups = g\<rparr>)"

text \<open>\<open>scan r s i n\<close> tries the start positions \<open>i\<close>, \<open>i + 1\<close>, ..., \<open>i + n\<close> in this order.\<close>

primrec scan :: "regex \<Rightarrow> string \<Rightarrow> nat \<Rightarrow> nat \<Rightarrow> regmatch option" where
  "scan r s i 0 = match_at r s i"
| "scan r s i (Suc n) =
     (case match_at r s i of Some m \<Rightarrow> Some m | None \<Rightarrow> scan r s (Suc i) n)"

text \<open>
  \<^verbatim>\<open>r.exec(s)\<close> on a regular expression whose \<^verbatim>\<open>lastIndex\<close> is 0 (the first is not global,
  the others are created anew before each use): the match at the smallest start position.
\<close>

definition exec :: "regex \<Rightarrow> string \<Rightarrow> regmatch option" where
  "exec r s = scan r s 0 (length s)"

definition named_group :: "regmatch \<Rightarrow> string \<Rightarrow> string" where
  "named_group m n = (case map_of (groups m) n of Some t \<Rightarrow> t | None \<Rightarrow> [])"

text \<open>\<^verbatim>\<open>VARIABLEREG = /[a-zA-Z_][a-zA-Z0-9_]*/\<close> (line 62).\<close>

definition ident_start :: "char \<Rightarrow> bool" where
  "ident_start c = (is_lower c \<or> is_upper c \<or> c = CHR ''_'')"

definition ident_char :: "char \<Rightarrow> bool" where
  "ident_char c = (is_lower c \<or> is_upper c \<or> is_digit c \<or> c = CHR ''_'')"

definition VARIABLEREG :: regex where
  "VARIABLEREG = Seq (Class ident_start) (Star ident_char)"

text \<open>
  The pattern of line 174, built for one operator of \<^verbatim>\<open>OPERATIONPRIORITY\<close>:
  \<^verbatim>\<open>(?:^\+)?(?<a>-?\d+(?:\.\d+)?)\s*\OP\s*(?<b>-?\d+(?:\.\d+)?)\<close>, where \<^verbatim>\<open>\OP\<close> is the
  operator with a backslash before its first character (\<^verbatim>\<open>\//\<close> for floored division: an
  escaped and a plain slash).
\<close>

definition number_pattern :: regex where
  "number_pattern =
     Seq (Opt (Lit CHR ''-'')) (Seq (Plus is_digit) (Opt (Seq (Lit CHR ''.'') (Plus is_digit))))"

fun literal :: "string \<Rightarrow> regex \<Rightarrow> regex" where
  "literal [] r = r"
| "literal (c # cs) r = Seq (Lit c) (literal cs r)"

definition operation_regex :: "string \<Rightarrow> regex" where
  "operation_regex operator =
     Seq (Opt (Seq AssertStart (Lit CHR ''+'')))
       (Seq (Named ''a'' number_pattern)
         (Seq (Star is_space)
           (literal operator
             (Seq (Star is_space) (Named ''b'' number_pattern)))))"

subsection \<open>Numbers, values, variables and errors\<close>

text \<open>
  The primitives of the language on Numbers, over a type \<open>'n\<close> of Numbers: \<^verbatim>\<open>Number(text)\<close>,
  the text of a Number in a string concatenation, \<^verbatim>\<open>isNaN\<close>, \<^verbatim>\<open>Math.pow\<close>, \<^verbatim>\<open>Math.floor\<close> and
  the operators \<^verbatim>\<open>*\<close>, \<^verbatim>\<open>/\<close>, \<^verbatim>\<open>%\<close>, \<^verbatim>\<open>+\<close>, \<^verbatim>\<open>-\<close> on two Numbers.
\<close>

record 'n runtime =
  Number :: "string \<Rightarrow> 'n"
  ToString :: "'n \<Rightarrow> string"
  isNaN :: "'n \<Rightarrow> bool"
  Math_pow :: "'n \<Rightarrow> 'n \<Rightarrow> 'n"
  Math_floor :: "'n \<Rightarrow> 'n"
  num_mul :: "'n \<Rightarrow> 'n \<Rightarrow> 'n"
  num_div :: "'n \<Rightarrow> 'n \<Rightarrow> 'n"
  num_mod :: "'n \<Rightarrow> 'n \<Rightarrow> 'n"
  num_add :: "'n \<Rightarrow> 'n \<Rightarrow> 'n"
  num_sub :: "'n \<Rightarrow> 'n \<Rightarrow> 'n"

text \<open>
  What a \<^verbatim>\<open>value\<close> field holds (\<^verbatim>\<open>@property {Equation|Result} value\<close>, or nothing), and what
  the functions return: a Number, or a string.
\<close>

datatype 'n jsvalue = Undefined | Str string | Num 'n

text \<open>The text of a value inside a string concatenation \<^verbatim>\<open>text + value + text\<close>.\<close>

fun to_text :: "'n runtime \<Rightarrow> 'n jsvalue \<Rightarrow> string" where
  "to_text rt (Str s) = s"
| "to_text rt (Num x) = ToString rt x"
| "to_text rt Undefined = ''undefined''"

text \<open>The \<^verbatim>\<open>Variable\<close> objects (lines 21 to 27); the field \<open>val\<close> is \<^verbatim>\<open>value\<close>.\<close>

record 'n variable =
  name :: string
  val :: "'n jsvalue"
  disabled :: bool
  comment :: string

type_synonym 'n variables = "string \<rightharpoonup> 'n variable"

text \<open>
  One constructor per \<^verbatim>\<open>throw\<close> of the source, in the order of the source, with the texts
  that the message is built from.
\<close>

datatype error =
    FailedToSubstitute string            \<comment> \<open>line 68: the variable\<close>
  | VariableIsDisabled string string     \<comment> \<open>line 72: the variable, the equation\<close>
  | CyclicalDependency string string     \<comment> \<open>line 76: the variable, the equation\<close>
  | SubstitutionWithoutEffect string string   \<comment> \<open>line 87: the variable, the equation\<close>
  | MoreOpening string                   \<comment> \<open>line 103\<close>
  | MoreClosing string                   \<comment> \<open>line 105\<close>
  | MissingClosing string                \<comment> \<open>line 127\<close>
  | FailedToResolve string               \<comment> \<open>line 138\<close>
  | FailedToEvaluate string              \<comment> \<open>line 199\<close>
  | EmptyString string                   \<comment> \<open>line 223\<close>
  | FailedToParse string                 \<comment> \<open>line 228\<close>

text \<open>
  The kinds of error of the specification (its section 7, and the resolution error of its
  section 4.2), and the kind of each error the code throws.
\<close>

datatype error_kind =
    UndefinedVariable | DisabledVariable | CyclicDependency | ParenthesisMismatch
  | ResolutionFailure | OperationFailure | EmptyExpression | ParseFailure

fun kind :: "error \<Rightarrow> error_kind" where
  "kind (FailedToSubstitute v) = UndefinedVariable"
| "kind (VariableIsDisabled v e) = DisabledVariable"
| "kind (CyclicalDependency v e) = CyclicDependency"
| "kind (SubstitutionWithoutEffect v e) = UndefinedVariable"
| "kind (MoreOpening e) = ParenthesisMismatch"
| "kind (MoreClosing e) = ParenthesisMismatch"
| "kind (MissingClosing e) = ParenthesisMismatch"
| "kind (FailedToResolve e) = ResolutionFailure"
| "kind (FailedToEvaluate e) = OperationFailure"
| "kind (EmptyString e) = EmptyExpression"
| "kind (FailedToParse e) = ParseFailure"

subsection \<open>\<^verbatim>\<open>parseValue\<close> (lines 217 to 232)\<close>

definition parseValue :: "'n runtime \<Rightarrow> string \<Rightarrow> error + 'n" where
  "parseValue rt equation =
     (if trim equation = [] then Inl (EmptyString equation)
      else (let result = Number rt equation
            in if isNaN rt result then Inl (FailedToParse equation) else Inr result))"

subsection \<open>\<^verbatim>\<open>evaluateOperations\<close> (lines 152 to 208)\<close>

text \<open>
  \<^verbatim>\<open>OPERATIONPRIORITY\<close> (lines 154 to 168): the tiers, each a list of operators with their
  functions.
\<close>

definition OPERATIONPRIORITY :: "'n runtime \<Rightarrow> (string \<times> ('n \<Rightarrow> 'n \<Rightarrow> 'n)) list list" where
  "OPERATIONPRIORITY rt =
     [ [ (''^'', \<lambda>a b. Math_pow rt a b) ],
       [ (''*'', \<lambda>a b. num_mul rt a b),
         (''//'', \<lambda>a b. Math_floor rt (num_div rt a b)),
         (''/'', \<lambda>a b. num_div rt a b),
         (''%'', \<lambda>a b. num_mod rt a b) ],
       [ (''+'', \<lambda>a b. num_add rt a b),
         (''-'', \<lambda>a b. num_sub rt a b) ] ]"

text \<open>
  The inner loop (lines 177 to 186) over the operators of one tier, with the variables
  \<^verbatim>\<open>match\<close> and \<^verbatim>\<open>f\<close> as an accumulator: a later operator replaces the match only when its
  own match starts at a strictly smaller index.
\<close>

fun select_match ::
  "(string \<times> 'f) list \<Rightarrow> string \<Rightarrow> (regmatch \<times> 'f) option \<Rightarrow> (regmatch \<times> 'f) option" where
  "select_match [] equation acc = acc"
| "select_match ((operator, func) # rest) equation acc =
     (case exec (operation_regex operator) equation of
        None \<Rightarrow> select_match rest equation acc
      | Some m \<Rightarrow>
          (case acc of
             None \<Rightarrow> select_match rest equation (Some (m, func))
           | Some (match, f) \<Rightarrow>
               if index m < index match then select_match rest equation (Some (m, func))
               else select_match rest equation acc))"

text \<open>
  The outer loop (line 170) up to the first tier with a match (\<^verbatim>\<open>if(!match) continue\<close>).
\<close>

fun first_match ::
  "(string \<times> 'f) list list \<Rightarrow> string \<Rightarrow> (regmatch \<times> 'f) option" where
  "first_match [] equation = None"
| "first_match (operation # tiers) equation =
     (case select_match operation equation None of
        None \<Rightarrow> first_match tiers equation
      | Some r \<Rightarrow> Some r)"

text \<open>
  The body of the outer loop for the selected match (lines 189 to 203) ends with a call of
  \<^verbatim>\<open>evaluateOperations\<close> on the new text; without a match the text is parsed (line 207).
\<close>

fun evaluateOperations :: "nat \<Rightarrow> 'n runtime \<Rightarrow> string \<Rightarrow> (error + 'n) option" where
  "evaluateOperations 0 rt equation = None"
| "evaluateOperations (Suc n) rt equation =
     (case first_match (OPERATIONPRIORITY rt) equation of
        None \<Rightarrow> Some (parseValue rt equation)
      | Some (match, f) \<Rightarrow>
          (case parseValue rt (named_group match ''a'') of
             Inl e \<Rightarrow> Some (Inl e)
           | Inr a \<Rightarrow>
               (case parseValue rt (named_group match ''b'') of
                  Inl e \<Rightarrow> Some (Inl e)
                | Inr b \<Rightarrow>
                    (let equation' = slice equation 0 (int (index match)) @ ToString rt (f a b)
                           @ slice_from equation (int (index match + length (matched match)))
                     in if equation = equation' then Some (Inl (FailedToEvaluate equation'))
                        else evaluateOperations n rt equation'))))"

subsection \<open>\<^verbatim>\<open>checkParentheses\<close> (lines 98 to 106)\<close>

text \<open>\<^verbatim>\<open>equation.split("(").length - 1\<close> is the number of occurrences of the character.\<close>

definition checkParentheses :: "string \<Rightarrow> error + unit" where
  "checkParentheses equation =
     (let open = count_list equation CHR ''(''; close = count_list equation CHR '')''
      in if open = close then Inr ()
         else if open > close then Inl (MoreOpening equation)
         else Inl (MoreClosing equation))"

subsection \<open>\<^verbatim>\<open>resolveParentheses\<close> (lines 115 to 143)\<close>

text \<open>
  The function returns what \<^verbatim>\<open>evaluateOperations\<close> returns, a Number, at line 123, and a
  string, the concatenation of line 131, when a closing parenthesis comes first.
\<close>

fun resolveParentheses :: "nat \<Rightarrow> 'n runtime \<Rightarrow> string \<Rightarrow> (error + 'n jsvalue) option" where
  "resolveParentheses 0 rt equation = None"
| "resolveParentheses (Suc n) rt equation =
     (let open = indexOf equation CHR ''(''; close = indexOf equation CHR '')''
      in if open < 0 \<and> close < 0 then
           (case evaluateOperations n rt equation of
              None \<Rightarrow> None
            | Some (Inl e) \<Rightarrow> Some (Inl e)
            | Some (Inr x) \<Rightarrow> Some (Inr (Num x)))
         else if open > 0 \<and> close < 0 then Some (Inl (MissingClosing equation))
         else if open < 0 \<or> close < open then
           (case resolveParentheses n rt (slice equation 0 close) of
              None \<Rightarrow> None
            | Some (Inl e) \<Rightarrow> Some (Inl e)
            | Some (Inr v) \<Rightarrow> Some (Inr (Str (to_text rt v @ slice_from equation (close + 1)))))
         else
           (case resolveParentheses n rt (slice_from equation (open + 1)) of
              None \<Rightarrow> None
            | Some (Inl e) \<Rightarrow> Some (Inl e)
            | Some (Inr v) \<Rightarrow>
                (let equation' = slice equation 0 open @ to_text rt v
                 in if equation = equation' then Some (Inl (FailedToResolve equation))
                    else resolveParentheses n rt equation')))"

subsection \<open>\<^verbatim>\<open>substituteVariables\<close> (lines 60 to 93) and \<^verbatim>\<open>evaluateEquation\<close> (lines 38 to 239)\<close>

text \<open>
  The assignment \<^verbatim>\<open>variables[variablename].value = v\<close> of line 81. The object is the entry
  that the checks of lines 66 to 77 have found; a mapping without the entry stays as it is.
\<close>

definition assign_value :: "'n variables \<Rightarrow> string \<Rightarrow> 'n jsvalue \<Rightarrow> 'n variables" where
  "assign_value variables variablename v =
     (case variables variablename of
        None \<Rightarrow> variables
      | Some var \<Rightarrow> variables(variablename \<mapsto> var\<lparr>val := v\<rparr>))"

text \<open>
  The condition of line 66, \<^verbatim>\<open>variables[variablename] == undefined ||
  variables[variablename].value == undefined\<close>, and the test of line 70.
\<close>

definition is_undefined :: "'n variables \<Rightarrow> string \<Rightarrow> bool" where
  "is_undefined variables variablename =
     (case variables variablename of None \<Rightarrow> True | Some var \<Rightarrow> val var = Undefined)"

definition is_disabled :: "'n variables \<Rightarrow> string \<Rightarrow> bool" where
  "is_disabled variables variablename =
     (case variables variablename of None \<Rightarrow> False | Some var \<Rightarrow> disabled var)"

definition value_of :: "'n variables \<Rightarrow> string \<Rightarrow> 'n jsvalue" where
  "value_of variables variablename =
     (case variables variablename of None \<Rightarrow> Undefined | Some var \<Rightarrow> val var)"

text \<open>Line 84: the text of the value in place of the identifier found at \<open>idx\<close>.\<close>

definition substitute :: "'n runtime \<Rightarrow> string \<Rightarrow> nat \<Rightarrow> string \<Rightarrow> 'n jsvalue \<Rightarrow> string" where
  "substitute rt equation idx variablename v =
     slice equation 0 (int idx) @ to_text rt v
       @ slice_from equation (int idx + int (length variablename))"

text \<open>
  Each call of \<open>substituteVariables\<close> is the test of the loop (line 64) and, when an identifier
  is found, one run of its body followed by the next test. The result has the outcome and
  the \<open>variables\<close> object as the call leaves it.
\<close>

fun evaluateEquation ::
    "nat \<Rightarrow> 'n runtime \<Rightarrow> string \<Rightarrow> 'n variables \<Rightarrow> string list
      \<Rightarrow> ((error + 'n jsvalue) \<times> 'n variables) option"
  and substituteVariables ::
    "nat \<Rightarrow> 'n runtime \<Rightarrow> string \<Rightarrow> 'n variables \<Rightarrow> string list
      \<Rightarrow> ((error + 'n jsvalue) \<times> 'n variables) option" where
  "evaluateEquation 0 rt equation variables dependencies = None"
| "evaluateEquation (Suc n) rt equation variables dependencies =
     substituteVariables n rt
       (if startsWith equation ''='' then slice_from equation 1 else equation)
       variables dependencies"
| "substituteVariables 0 rt equation variables dependencies = None"
| "substituteVariables (Suc n) rt equation variables dependencies =
     (case exec VARIABLEREG equation of
        None \<Rightarrow>
          (case checkParentheses equation of
             Inl e \<Rightarrow> Some (Inl e, variables)
           | Inr u \<Rightarrow>
               (case resolveParentheses n rt equation of
                  None \<Rightarrow> None
                | Some r \<Rightarrow> Some (r, variables)))
      | Some variable \<Rightarrow>
          (let variablename = matched variable in
           if is_undefined variables variablename then
             Some (Inl (FailedToSubstitute variablename), variables)
           else if is_disabled variables variablename then
             Some (Inl (VariableIsDisabled variablename equation), variables)
           else if variablename \<in> set dependencies then
             Some (Inl (CyclicalDependency variablename equation), variables)
           else
             (case value_of variables variablename of
                Str formula \<Rightarrow>
                  (case evaluateEquation n rt formula variables (dependencies @ [variablename]) of
                     None \<Rightarrow> None
                   | Some (Inl e, variables') \<Rightarrow> Some (Inl e, variables')
                   | Some (Inr v, variables') \<Rightarrow>
                       (let variables'' = assign_value variables' variablename v;
                            equation' = substitute rt equation (index variable) variablename v
                        in if equation = equation' then
                             Some (Inl (SubstitutionWithoutEffect variablename equation), variables'')
                           else substituteVariables n rt equation' variables'' dependencies))
              | v \<Rightarrow>
                  (let equation' = substitute rt equation (index variable) variablename v
                   in if equation = equation' then
                        Some (Inl (SubstitutionWithoutEffect variablename equation), variables)
                      else substituteVariables n rt equation' variables dependencies))))"

subsection \<open>An instance of the primitives\<close>

text \<open>
  The instance \<open>js\<close> of the primitives computes with exact rationals, with the three special
  Numbers \<^verbatim>\<open>NaN\<close>, \<^verbatim>\<open>Infinity\<close> and \<^verbatim>\<open>-Infinity\<close>. It agrees with a JavaScript engine
  wherever the arithmetic of the engine is exact, as it is on integers below \<open>2 ^ 53\<close> in
  magnitude, their sums, differences, products and floored quotients. It does not round to
  64-bit floating point, has no negative zero, and gives \<^verbatim>\<open>NaN\<close> for a power of a positive
  base with a fractional exponent (an engine returns an approximation there). The concrete
  evaluations below stay in the exact part.
\<close>

datatype number = NaN | Infinity | NegInfinity | Finite rat

definition digit_char :: "nat \<Rightarrow> char" where
  "digit_char d = ''0123456789abcdef'' ! d"

text \<open>The decimal digits of an integer that is not negative.\<close>

fun decimal :: "int \<Rightarrow> string" where
  "decimal n =
     (if n < 10 then [digit_char (nat n)]
      else decimal (n div 10) @ [digit_char (nat (n mod 10))])"

declare decimal.simps [simp del]

definition pow10 :: "int \<Rightarrow> rat" where
  "pow10 e = (if 0 \<le> e then 10 ^ nat e else 1 / 10 ^ nat (- e))"

text \<open>
  The decimal exponent \<open>n\<close> of a positive rational: \<open>10 ^ (n - 1) \<le> q < 10 ^ n\<close>.
\<close>

definition magnitude :: "rat \<Rightarrow> int" where
  "magnitude q =
     (if 1 \<le> q then int (length (decimal \<lfloor>q\<rfloor>))
      else (let d = int (length (decimal \<lfloor>1 / q\<rfloor>))
            in if pow10 (1 - d) \<le> q then 2 - d else 1 - d))"

fun strip_zeros :: "int \<Rightarrow> int" where
  "strip_zeros s = (if s \<le> 0 \<or> s mod 10 \<noteq> 0 then s else strip_zeros (s div 10))"

declare strip_zeros.simps [simp del]

text \<open>
  The text of a positive Number: with \<open>k\<close> digits \<open>s\<close> and exponent \<open>n\<close> such that the value
  is \<open>s * 10 ^ (n - k)\<close>, the four cases of \<^verbatim>\<open>Number::toString\<close>. The digits are those of the
  value rounded to 17 significant digits, without trailing zeros.
\<close>

definition positive_text :: "rat \<Rightarrow> string" where
  "positive_text q =
     (let n0 = magnitude q;
          s0 = \<lfloor>q * pow10 (17 - n0) + 1 / 2\<rfloor>;
          n = (if s0 = 10 ^ 17 then n0 + 1 else n0);
          ds = decimal (strip_zeros s0);
          k = int (length ds)
      in if k \<le> n \<and> n \<le> 21 then ds @ replicate (nat (n - k)) CHR ''0''
         else if 0 < n \<and> n \<le> 21 then take (nat n) ds @ ''.'' @ drop (nat n) ds
         else if - 6 < n \<and> n \<le> 0 then ''0.'' @ replicate (nat (- n)) CHR ''0'' @ ds
         else (let e = (if 0 \<le> n - 1 then ''e+'' else ''e-'') @ decimal \<bar>n - 1\<bar>
               in if k = 1 then ds @ e else take 1 ds @ ''.'' @ drop 1 ds @ e))"

fun number_text :: "number \<Rightarrow> string" where
  "number_text NaN = ''NaN''"
| "number_text Infinity = ''Infinity''"
| "number_text NegInfinity = ''-Infinity''"
| "number_text (Finite q) =
     (if q = 0 then ''0''
      else if q < 0 then ''-'' @ positive_text (- q)
      else positive_text q)"

text \<open>
  \<^verbatim>\<open>Number(text)\<close>: white space around the text is ignored, the empty text is 0, and the
  text is otherwise a decimal literal with an optional sign (digits with an optional
  fraction and exponent, or \<^verbatim>\<open>Infinity\<close>) or an unsigned hexadecimal, octal or binary
  literal; every other text is \<^verbatim>\<open>NaN\<close>.
\<close>

definition digit_value :: "char \<Rightarrow> nat" where
  "digit_value c =
     (if is_digit c then of_char c - 48
      else if is_lower c then of_char c - 87
      else of_char c - 55)"

definition radix_value :: "nat \<Rightarrow> string \<Rightarrow> int" where
  "radix_value b ds = foldl (\<lambda>a c. int b * a + int (digit_value c)) 0 ds"

definition radix_digit :: "nat \<Rightarrow> char \<Rightarrow> bool" where
  "radix_digit b c = ((is_digit c \<or> is_lower c \<or> is_upper c) \<and> digit_value c < b)"

definition radix_literal :: "nat \<Rightarrow> string \<Rightarrow> number" where
  "radix_literal b ds =
     (if ds \<noteq> [] \<and> list_all (radix_digit b) ds then Finite (of_int (radix_value b ds)) else NaN)"

definition exponent_part :: "string \<Rightarrow> int option" where
  "exponent_part s =
     (if s = [] then Some 0
      else if hd s = CHR ''e'' \<or> hd s = CHR ''E'' then
        (let t = tl s;
             negative = (t \<noteq> [] \<and> hd t = CHR ''-'');
             ds = (if t \<noteq> [] \<and> (hd t = CHR ''-'' \<or> hd t = CHR ''+'') then tl t else t)
         in if ds \<noteq> [] \<and> list_all is_digit ds then
              Some (if negative then - radix_value 10 ds else radix_value 10 ds)
            else None)
      else None)"

definition unsigned_decimal :: "string \<Rightarrow> number" where
  "unsigned_decimal s =
     (if s = ''Infinity'' then Infinity
      else
        (let ip = takeWhile is_digit s;
             r = dropWhile is_digit s;
             dot = (r \<noteq> [] \<and> hd r = CHR ''.'');
             fp = (if dot then takeWhile is_digit (tl r) else []);
             r' = (if dot then dropWhile is_digit (tl r) else r)
         in if ip = [] \<and> fp = [] then NaN
            else (case exponent_part r' of
                    None \<Rightarrow> NaN
                  | Some e \<Rightarrow>
                      Finite ((of_int (radix_value 10 ip)
                                + of_int (radix_value 10 fp) / 10 ^ length fp) * pow10 e))))"

fun negate :: "number \<Rightarrow> number" where
  "negate NaN = NaN"
| "negate Infinity = NegInfinity"
| "negate NegInfinity = Infinity"
| "negate (Finite q) = Finite (- q)"

definition string_to_number :: "string \<Rightarrow> number" where
  "string_to_number text =
     (let s = trim text
      in if s = [] then Finite 0
         else if take 2 s = ''0x'' \<or> take 2 s = ''0X'' then radix_literal 16 (drop 2 s)
         else if take 2 s = ''0o'' \<or> take 2 s = ''0O'' then radix_literal 8 (drop 2 s)
         else if take 2 s = ''0b'' \<or> take 2 s = ''0B'' then radix_literal 2 (drop 2 s)
         else if hd s = CHR ''-'' then negate (unsigned_decimal (tl s))
         else if hd s = CHR ''+'' then unsigned_decimal (tl s)
         else unsigned_decimal s)"

text \<open>The operators on two Numbers.\<close>

fun add :: "number \<Rightarrow> number \<Rightarrow> number" where
  "add NaN y = NaN"
| "add x NaN = NaN"
| "add Infinity NegInfinity = NaN"
| "add NegInfinity Infinity = NaN"
| "add Infinity y = Infinity"
| "add NegInfinity y = NegInfinity"
| "add x Infinity = Infinity"
| "add x NegInfinity = NegInfinity"
| "add (Finite a) (Finite b) = Finite (a + b)"

definition sub :: "number \<Rightarrow> number \<Rightarrow> number" where
  "sub x y = add x (negate y)"

fun mul :: "number \<Rightarrow> number \<Rightarrow> number" where
  "mul NaN y = NaN"
| "mul x NaN = NaN"
| "mul (Finite a) (Finite b) = Finite (a * b)"
| "mul (Finite a) y = (if a = 0 then NaN else if 0 < a then y else negate y)"
| "mul x (Finite b) = (if b = 0 then NaN else if 0 < b then x else negate x)"
| "mul x y = (if x = y then Infinity else NegInfinity)"

fun quotient :: "number \<Rightarrow> number \<Rightarrow> number" where
  "quotient NaN y = NaN"
| "quotient x NaN = NaN"
| "quotient (Finite a) (Finite b) =
     (if b = 0 then (if a = 0 then NaN else if 0 < a then Infinity else NegInfinity)
      else Finite (a / b))"
| "quotient (Finite a) y = Finite 0"
| "quotient x (Finite b) = (if 0 \<le> b then x else negate x)"
| "quotient x y = NaN"

fun remainder :: "number \<Rightarrow> number \<Rightarrow> number" where
  "remainder (Finite a) (Finite b) =
     (if b = 0 then NaN
      else Finite (a - b * of_int (if 0 \<le> a / b then \<lfloor>a / b\<rfloor> else \<lceil>a / b\<rceil>)))"
| "remainder (Finite a) Infinity = Finite a"
| "remainder (Finite a) NegInfinity = Finite a"
| "remainder x y = NaN"

fun floor_number :: "number \<Rightarrow> number" where
  "floor_number (Finite q) = Finite (of_int \<lfloor>q\<rfloor>)"
| "floor_number x = x"

definition is_integer :: "rat \<Rightarrow> bool" where
  "is_integer q = (of_int \<lfloor>q\<rfloor> = q)"

fun power :: "number \<Rightarrow> number \<Rightarrow> number" where
  "power x NaN = NaN"
| "power x (Finite b) =
     (if b = 0 then Finite 1
      else (case x of
              NaN \<Rightarrow> NaN
            | Infinity \<Rightarrow> (if 0 < b then Infinity else Finite 0)
            | NegInfinity \<Rightarrow>
                (if b < 0 then Finite 0
                 else if is_integer b \<and> odd \<lfloor>b\<rfloor> then NegInfinity else Infinity)
            | Finite a \<Rightarrow>
                (if is_integer b then
                   (if 0 < b then Finite (a ^ nat \<lfloor>b\<rfloor>)
                    else if a = 0 then Infinity
                    else Finite (1 / a ^ nat (- \<lfloor>b\<rfloor>)))
                 else if a = 0 then (if 0 < b then Finite 0 else Infinity)
                 else if a = 1 then Finite 1
                 else NaN)))"
| "power NaN y = NaN"
| "power (Finite a) y =
     (if \<bar>a\<bar> = 1 then NaN
      else if (1 < \<bar>a\<bar>) = (y = Infinity) then Infinity else Finite 0)"
| "power x y = (if y = Infinity then Infinity else Finite 0)"

definition js :: "number runtime" where
  "js = \<lparr> Number = string_to_number, ToString = number_text, isNaN = (\<lambda>x. x = NaN),
          Math_pow = power, Math_floor = floor_number, num_mul = mul, num_div = quotient,
          num_mod = remainder, num_add = add, num_sub = sub \<rparr>"

subsection \<open>The variables of the examples\<close>

definition ex_disabled :: "number variables" where
  "ex_disabled = [''x'' \<mapsto> \<lparr>name = ''x'', val = Str ''1'', disabled = True, comment = ''''\<rparr>]"

definition ex_chain :: "number variables" where
  "ex_chain = [''a'' \<mapsto> \<lparr>name = ''a'', val = Str ''b+1'', disabled = False, comment = ''''\<rparr>,
               ''b'' \<mapsto> \<lparr>name = ''b'', val = Str ''2'', disabled = False, comment = ''''\<rparr>]"

definition ex_partial :: "number variables" where
  "ex_partial = [''x'' \<mapsto> \<lparr>name = ''x'', val = Str ''2'', disabled = False, comment = ''''\<rparr>]"

definition ex_self :: "number variables" where
  "ex_self = [''a'' \<mapsto> \<lparr>name = ''a'', val = Str ''a+1'', disabled = False, comment = ''''\<rparr>]"

definition ex_nested :: "number variables" where
  "ex_nested = [''x'' \<mapsto> \<lparr>name = ''x'', val = Str ''y+z'', disabled = False, comment = ''''\<rparr>,
                ''y'' \<mapsto> \<lparr>name = ''y'', val = Str ''2'', disabled = False, comment = ''''\<rparr>]"

definition ex_cycle :: "number variables" where
  "ex_cycle = [''a'' \<mapsto> \<lparr>name = ''a'', val = Str ''b+1'', disabled = False, comment = ''''\<rparr>,
               ''b'' \<mapsto> \<lparr>name = ''b'', val = Str ''a*2'', disabled = False, comment = ''''\<rparr>]"

text \<open>
  What the examples observe of a result: the outcome and the \<^verbatim>\<open>value\<close> fields of some
  variables in the mapping that the call leaves.
\<close>

definition values_of ::
  "string list \<Rightarrow> ((error + 'n jsvalue) \<times> 'n variables) option
     \<Rightarrow> ((error + 'n jsvalue) \<times> 'n jsvalue list) option" where
  "values_of ks res = map_option (\<lambda>(r, vs). (r, map (value_of vs) ks)) res"

subsection \<open>The order of the reductions, in the words of the specification\<close>

text \<open>
  Section 4.3 of the specification: within a tier, the match with the smallest starting
  offset over all operators of the tier, ties broken by the order of declaration; the first
  tier with a match; after a reduction, the whole scan again on the new text. These
  definitions do not use \<open>exec\<close>, \<open>select_match\<close> or \<open>first_match\<close>: they are compared with them
  below. \<open>matches_at operator equation j\<close> says that the pattern of the operator (line 174)
  matches at offset \<open>j\<close>; the pattern is a number, the operator and a number, with optional
  white space around the operator and, at the very start of the text only, an optional
  \<^verbatim>\<open>+\<close> in front of the first number.
\<close>

definition matches_at :: "string \<Rightarrow> string \<Rightarrow> nat \<Rightarrow> bool" where
  "matches_at operator equation j = (match_at (operation_regex operator) equation j \<noteq> None)"

text \<open>
  The smallest offset at which an operator of the tier matches, the first operator of the
  tier that matches there, and its match.
\<close>

definition spec_select :: "(string \<times> 'f) list \<Rightarrow> string \<Rightarrow> (regmatch \<times> 'f) option" where
  "spec_select tier equation =
     (case find (\<lambda>j. list_ex (\<lambda>p. matches_at (fst p) equation j) tier) [0..<Suc (length equation)] of
        None \<Rightarrow> None
      | Some j \<Rightarrow>
          (case find (\<lambda>p. matches_at (fst p) equation j) tier of
             None \<Rightarrow> None
           | Some (operator, f) \<Rightarrow>
               map_option (\<lambda>m. (m, f)) (match_at (operation_regex operator) equation j)))"

text \<open>The selection of the first tier that has one.\<close>

definition spec_first_match :: "(string \<times> 'f) list list \<Rightarrow> string \<Rightarrow> (regmatch \<times> 'f) option" where
  "spec_first_match tiers equation =
     (case find (\<lambda>tier. spec_select tier equation \<noteq> None) tiers of
        None \<Rightarrow> None
      | Some tier \<Rightarrow> spec_select tier equation)"

text \<open>
  The reduction: the selected match is replaced by the text of the result, and the scan
  starts again on all tiers.
\<close>

fun reduce :: "nat \<Rightarrow> 'n runtime \<Rightarrow> string \<Rightarrow> (error + 'n) option" where
  "reduce 0 rt text = None"
| "reduce (Suc n) rt text =
     (case spec_first_match (OPERATIONPRIORITY rt) text of
        None \<Rightarrow> Some (parseValue rt text)
      | Some (m, f) \<Rightarrow>
          (case parseValue rt (named_group m ''a'') of
             Inl e \<Rightarrow> Some (Inl e)
           | Inr a \<Rightarrow>
               (case parseValue rt (named_group m ''b'') of
                  Inl e \<Rightarrow> Some (Inl e)
                | Inr b \<Rightarrow>
                    (let text' = take (index m) text @ ToString rt (f a b)
                           @ drop (index m + length (matched m)) text
                     in if text' = text then Some (Inl (FailedToEvaluate text))
                        else reduce n rt text'))))"

text \<open>
  What the inner loop selects, for the proofs: \<open>f\<close> is the function of an operator of the tier
  whose leftmost match is \<open>m\<close>, no operator declared before it matches at or before the offset
  of \<open>m\<close>, and none declared after it matches before that offset.
\<close>

definition selected :: "(string \<times> 'f) list \<Rightarrow> string \<Rightarrow> regmatch \<Rightarrow> 'f \<Rightarrow> bool" where
  "selected tier s m f =
     (\<exists>pre operator post. tier = pre @ (operator, f) # post \<and>
        exec (operation_regex operator) s = Some m \<and>
        (\<forall>p \<in> set pre. \<forall>j \<le> index m. \<not> matches_at (fst p) s j) \<and>
        (\<forall>p \<in> set post. \<forall>j < index m. \<not> matches_at (fst p) s j))"

subsection \<open>The calls that a call makes\<close>

text \<open>
  A call of \<open>evaluateEquation\<close> or of \<open>substituteVariables\<close> with its arguments, and the
  relation between a call and each call that it makes directly: \<open>evaluateEquation\<close> calls
  \<open>substituteVariables\<close> (line 236); a run of the loop body whose checks pass calls
  \<open>evaluateEquation\<close> on a formula with the identifier added to the dependencies (lines 79 to
  81); and the next run of the loop is the call of \<open>substituteVariables\<close> on the new text, with
  the variables as the evaluation of the formula has left them.
\<close>

datatype 'n call =
    Evaluate nat "'n runtime" string "'n variables" "string list"
  | Substitute nat "'n runtime" string "'n variables" "string list"

inductive invokes :: "'n call \<Rightarrow> 'n call \<Rightarrow> bool" where
  body:
    "invokes (Evaluate (Suc n) rt equation variables dependencies)
       (Substitute n rt (if startsWith equation ''='' then slice_from equation 1 else equation)
          variables dependencies)"
| formula:
    "exec VARIABLEREG equation = Some variable \<Longrightarrow>
     \<not> is_undefined variables (matched variable) \<Longrightarrow>
     \<not> is_disabled variables (matched variable) \<Longrightarrow>
     matched variable \<notin> set dependencies \<Longrightarrow>
     value_of variables (matched variable) = Str formula \<Longrightarrow>
     invokes (Substitute (Suc n) rt equation variables dependencies)
       (Evaluate n rt formula variables (dependencies @ [matched variable]))"
| after_formula:
    "exec VARIABLEREG equation = Some variable \<Longrightarrow>
     \<not> is_undefined variables (matched variable) \<Longrightarrow>
     \<not> is_disabled variables (matched variable) \<Longrightarrow>
     matched variable \<notin> set dependencies \<Longrightarrow>
     value_of variables (matched variable) = Str formula \<Longrightarrow>
     evaluateEquation n rt formula variables (dependencies @ [matched variable])
       = Some (Inr v, variables') \<Longrightarrow>
     equation \<noteq> substitute rt equation (index variable) (matched variable) v \<Longrightarrow>
     invokes (Substitute (Suc n) rt equation variables dependencies)
       (Substitute n rt (substitute rt equation (index variable) (matched variable) v)
          (assign_value variables' (matched variable) v) dependencies)"
| after_number:
    "exec VARIABLEREG equation = Some variable \<Longrightarrow>
     \<not> is_undefined variables (matched variable) \<Longrightarrow>
     \<not> is_disabled variables (matched variable) \<Longrightarrow>
     matched variable \<notin> set dependencies \<Longrightarrow>
     value_of variables (matched variable) = Num x \<Longrightarrow>
     equation \<noteq> substitute rt equation (index variable) (matched variable) (Num x) \<Longrightarrow>
     invokes (Substitute (Suc n) rt equation variables dependencies)
       (Substitute n rt (substitute rt equation (index variable) (matched variable) (Num x))
          variables dependencies)"

fun dependencies_of :: "'n call \<Rightarrow> string list" where
  "dependencies_of (Evaluate n rt equation variables dependencies) = dependencies"
| "dependencies_of (Substitute n rt equation variables dependencies) = dependencies"

fun variables_of :: "'n call \<Rightarrow> 'n variables" where
  "variables_of (Evaluate n rt equation variables dependencies) = variables"
| "variables_of (Substitute n rt equation variables dependencies) = variables"

text \<open>What a call returns or throws, with the variables as it leaves them.\<close>

fun outcome :: "'n call \<Rightarrow> ((error + 'n jsvalue) \<times> 'n variables) option" where
  "outcome (Evaluate n rt equation variables dependencies)
     = evaluateEquation n rt equation variables dependencies"
| "outcome (Substitute n rt equation variables dependencies)
     = substituteVariables n rt equation variables dependencies"

text \<open>
  The dependencies of a call are sound when no identifier occurs twice and each one has an
  entry with a value that is not disabled.
\<close>

definition sound_stack :: "'n call \<Rightarrow> bool" where
  "sound_stack c =
     (distinct (dependencies_of c) \<and>
      list_all (\<lambda>d. \<not> is_undefined (variables_of c) d \<and> \<not> is_disabled (variables_of c) d)
        (dependencies_of c))"

subsection \<open>What a call keeps of the variables\<close>

text \<open>
  An entry is kept when it is there before and after with the same \<^verbatim>\<open>name\<close>, \<^verbatim>\<open>disabled\<close>
  and \<^verbatim>\<open>comment\<close>, and with the same \<^verbatim>\<open>value\<close> unless that was a string and is now
  defined.
\<close>

definition entry_kept :: "'n variable option \<Rightarrow> 'n variable option \<Rightarrow> bool" where
  "entry_kept a b =
     (case a of
        None \<Rightarrow> b = None
      | Some var \<Rightarrow>
          (case b of
             None \<Rightarrow> False
           | Some var' \<Rightarrow>
               name var' = name var \<and> disabled var' = disabled var \<and> comment var' = comment var \<and>
               (val var' \<noteq> val var \<longrightarrow> (\<exists>s. val var = Str s) \<and> val var' \<noteq> Undefined)))"

definition kept :: "'n variables \<Rightarrow> 'n variables \<Rightarrow> bool" where
  "kept vs vs' = (\<forall>k. entry_kept (vs k) (vs' k))"

section \<open>Properties\<close>

subsection \<open>Texts without identifiers, operations and parentheses\<close>

lemma space_not_digit: "is_space c \<Longrightarrow> \<not> is_digit c"
  by (auto simp: is_space_def is_digit_def)

lemma space_not_ident: "is_space c \<Longrightarrow> \<not> ident_start c"
  by (auto simp: is_space_def ident_start_def is_lower_def is_upper_def)

lemma space_not_sign: "is_space c \<Longrightarrow> c \<noteq> CHR ''+'' \<and> c \<noteq> CHR ''-'' \<and> c \<noteq> CHR ''('' \<and> c \<noteq> CHR '')'' \<and> c \<noteq> CHR ''=''"
  by (auto simp: is_space_def)

lemma scan_None: "(\<And>j. match_at r s j = None) \<Longrightarrow> scan r s i n = None"
  by (induction n arbitrary: i) auto

lemma operation_regex_first:
  assumes "s = [] \<or> (hd s \<noteq> CHR ''+'' \<and> hd s \<noteq> CHR ''-'' \<and> \<not> is_digit (hd s))"
  shows "rmatch (operation_regex operator) k (i, s, g) = None"
  using assms by (cases s) (auto simp: operation_regex_def number_pattern_def)

lemma VARIABLEREG_first:
  assumes "s = [] \<or> \<not> ident_start (hd s)"
  shows "rmatch VARIABLEREG k (i, s, g) = None"
  using assms by (cases s) (auto simp: VARIABLEREG_def)

lemma drop_blank: "list_all is_space s \<Longrightarrow> drop i s = [] \<or> is_space (hd (drop i s))"
  by (metis hd_drop_conv_nth list_all_length not_le_imp_less drop_all)

lemma blank_no_identifier:
  assumes "list_all is_space s" shows "exec VARIABLEREG s = None"
  unfolding exec_def
proof (rule scan_None)
  fix j
  have "drop j s = [] \<or> \<not> ident_start (hd (drop j s))"
    using drop_blank[OF assms, of j] space_not_ident by blast
  then have "rmatch VARIABLEREG Some (j, drop j s, []) = None"
    by (rule VARIABLEREG_first)
  then show "match_at VARIABLEREG s j = None"
    by (simp add: match_at_def)
qed

lemma blank_no_operation:
  assumes "list_all is_space s" shows "exec (operation_regex operator) s = None"
  unfolding exec_def
proof (rule scan_None)
  fix j
  have "drop j s = [] \<or> (hd (drop j s) \<noteq> CHR ''+'' \<and> hd (drop j s) \<noteq> CHR ''-'' \<and> \<not> is_digit (hd (drop j s)))"
    using drop_blank[OF assms, of j] space_not_digit space_not_sign by blast
  then have "rmatch (operation_regex operator) Some (j, drop j s, []) = None"
    by (rule operation_regex_first)
  then show "match_at (operation_regex operator) s j = None"
    by (simp add: match_at_def)
qed

lemma blank_first_match: "list_all is_space s \<Longrightarrow> first_match (OPERATIONPRIORITY rt) s = None"
  by (simp add: OPERATIONPRIORITY_def blank_no_operation)

lemma indexOf_absent: "c \<notin> set s \<Longrightarrow> indexOf s c = - 1"
  by (induction s) (auto simp: Let_def)

lemma trim_blank: "(trim s = []) = list_all is_space s"
proof
  assume "list_all is_space s"
  then have d: "dropWhile is_space s = []" by (simp add: list_all_iff)
  show "trim s = []" unfolding trim_def d by simp
next
  assume t: "trim s = []"
  have "dropWhile is_space s = []"
  proof (rule ccontr)
    assume n: "dropWhile is_space s \<noteq> []"
    then have "\<not> is_space (hd (dropWhile is_space s))" by (rule hd_dropWhile)
    moreover from t have "dropWhile is_space (rev (dropWhile is_space s)) = []"
      by (simp add: trim_def)
    then have "\<forall>x \<in> set (dropWhile is_space s). is_space x"
      by (simp add: dropWhile_eq_Nil_conv)
    ultimately show False using n by (meson hd_in_set)
  qed
  then show "list_all is_space s" by (simp add: list_all_iff dropWhile_eq_Nil_conv)
qed

lemma blank_evaluateOperations:
  "list_all is_space s \<Longrightarrow> evaluateOperations (Suc n) rt s = Some (Inl (EmptyString s))"
  by (simp add: blank_first_match parseValue_def trim_blank)

lemma blank_resolveParentheses:
  assumes "list_all is_space s"
  shows "resolveParentheses (Suc (Suc n)) rt s = Some (Inl (EmptyString s))"
proof -
  have "CHR ''('' \<notin> set s" "CHR '')'' \<notin> set s"
    using assms space_not_sign by (auto simp: list_all_iff)
  then have "indexOf s CHR ''('' = - 1" "indexOf s CHR '')'' = - 1"
    by (simp_all add: indexOf_absent)
  then show ?thesis
    using blank_evaluateOperations[OF assms, of n rt] by simp
qed

lemma blank_evaluateEquation:
  assumes "list_all is_space s"
  shows "evaluateEquation (Suc (Suc (Suc (Suc n)))) rt s variables dependencies
           = Some (Inl (EmptyString s), variables)"
proof -
  have p: "CHR ''('' \<notin> set s" "CHR '')'' \<notin> set s"
    using assms space_not_sign by (auto simp: list_all_iff)
  have "\<not> startsWith s ''=''"
    using assms space_not_sign by (cases s) (auto simp: startsWith_def)
  moreover have "checkParentheses s = Inr ()"
    using p by (simp add: checkParentheses_def count_list_0_iff)
  ultimately show ?thesis
    using blank_resolveParentheses[OF assms, of n rt] blank_no_identifier[OF assms]
    by simp
qed

subsection \<open>More fuel does not change a result\<close>

lemma evaluateOperations_mono:
  "evaluateOperations n rt s = Some r \<Longrightarrow> evaluateOperations (n + k) rt s = Some r"
proof (induction n arbitrary: s)
  case 0
  then show ?case by simp
next
  case (Suc n)
  then show ?case
    by (auto simp: Let_def split: option.splits sum.splits prod.splits if_splits)
qed

lemma resolveParentheses_mono:
  "resolveParentheses n rt s = Some r \<Longrightarrow> resolveParentheses (n + k) rt s = Some r"
proof (induction n arbitrary: s r)
  case 0
  then show ?case by simp
next
  case (Suc n)
  show ?case
    using Suc.prems Suc.IH evaluateOperations_mono[of n rt s _ k]
    by (auto simp: Let_def split: option.splits sum.splits if_splits)
qed

lemma evaluate_substitute_mono:
  "(evaluateEquation n rt e vs ds = Some r \<longrightarrow> evaluateEquation (n + k) rt e vs ds = Some r) \<and>
   (substituteVariables n rt e vs ds = Some r \<longrightarrow> substituteVariables (n + k) rt e vs ds = Some r)"
proof (induction n arbitrary: e vs ds r)
  case 0
  then show ?case by simp
next
  case (Suc n)
  have a: "evaluateEquation (Suc n) rt e vs ds = Some r \<longrightarrow> evaluateEquation (Suc n + k) rt e vs ds = Some r"
    using Suc.IH by simp
  have b: "substituteVariables (Suc n) rt e vs ds = Some r \<longrightarrow> substituteVariables (Suc n + k) rt e vs ds = Some r"
    using Suc.IH resolveParentheses_mono[of n rt e _ k]
    by (auto simp: Let_def split: option.splits sum.splits if_splits jsvalue.splits prod.splits)
  show ?case using a b by blast
qed

subsection \<open>Blank texts, parentheses that do not pair, variables that cannot be used\<close>

text \<open>
  Claim C8. A text that is empty or has white space only is never parsed as 0: \<open>parseValue\<close>
  throws the error of kind \<open>EmptyExpression\<close>, and so does the whole evaluation of such a
  text, with any variables and for every fuel from 4 on (\<^verbatim>\<open>evaluate("")\<close> is the case of the
  empty text). A text that is not blank and that \<^verbatim>\<open>Number\<close> turns into \<^verbatim>\<open>NaN\<close> throws the
  error of kind \<open>ParseFailure\<close>; every other text is returned as the Number that \<^verbatim>\<open>Number\<close>
  gives. The text that is left when no operation matches is passed to \<open>parseValue\<close>.
\<close>

theorem parseValue_never_coerces:
  "(list_all is_space text \<longrightarrow>
      parseValue rt text = Inl (EmptyString text) \<and> kind (EmptyString text) = EmptyExpression \<and>
      evaluateEquation (n + 4) rt text variables dependencies
        = Some (Inl (EmptyString text), variables)) \<and>
   (\<not> list_all is_space text \<and> isNaN rt (Number rt text) \<longrightarrow>
      parseValue rt text = Inl (FailedToParse text) \<and> kind (FailedToParse text) = ParseFailure) \<and>
   (\<not> list_all is_space text \<and> \<not> isNaN rt (Number rt text) \<longrightarrow>
      parseValue rt text = Inr (Number rt text)) \<and>
   (first_match (OPERATIONPRIORITY rt) text = None \<longrightarrow>
      evaluateOperations (Suc n) rt text = Some (parseValue rt text))"
proof -
  have "evaluateEquation (n + 4) rt text variables dependencies
          = Some (Inl (EmptyString text), variables)" if "list_all is_space text"
    using blank_evaluateEquation[OF that, of n rt variables dependencies]
    by (simp add: numeral_eq_Suc)
  then show ?thesis
    by (simp add: parseValue_def trim_blank)
qed

theorem parseValue_never_coerces_witness:
  "list_all is_space '''' \<and>
   evaluateEquation 4 js '''' Map.empty [] = Some (Inl (EmptyString ''''), Map.empty) \<and>
   \<not> list_all is_space ''1(2'' \<and> isNaN js (Number js ''1(2'') \<and>
   parseValue js ''1(2'' = Inl (FailedToParse ''1(2'') \<and>
   \<not> list_all is_space '' 42'' \<and> \<not> isNaN js (Number js '' 42'') \<and>
   parseValue js '' 42'' = Inr (Finite 42) \<and>
   first_match (OPERATIONPRIORITY js) '' 42'' = None \<and>
   evaluateOperations 1 js '' 42'' = Some (Inr (Finite 42))"
proof -
  have a: "list_all is_space ''''" by simp
  have b: "\<not> list_all is_space ''1(2''" by (simp add: is_space_def)
  have c: "isNaN js (Number js ''1(2'')" by code_simp
  have d: "\<not> list_all is_space '' 42''" by (simp add: is_space_def)
  have e: "Number js '' 42'' = Finite 42" by code_simp
  have f: "\<not> isNaN js (Number js '' 42'')" by (simp add: e) (simp add: js_def)
  have g: "first_match (OPERATIONPRIORITY js) '' 42'' = None" by code_simp
  show ?thesis
    using a b c d e f g
      parseValue_never_coerces[of "''''" js 0 Map.empty "[]"]
      parseValue_never_coerces[of "''1(2''" js 0 Map.empty "[]"]
      parseValue_never_coerces[of "'' 42''" js 0 Map.empty "[]"]
    by simp
qed

text \<open>
  Claim C7. The loop of \<open>substituteVariables\<close> ends when no identifier is left in the text. If
  the numbers of opening and of closing parentheses of that text differ, the call throws an
  error of kind \<open>ParenthesisMismatch\<close> and leaves the variables as they are. This holds for
  every fuel \<open>Suc n\<close>, also for \<open>n = 0\<close>, with which a call of \<open>resolveParentheses\<close> would give
  \<open>None\<close>: the error comes before any resolution of parentheses. The witness is
  \<^verbatim>\<open>evaluate("(2+3")\<close>.
\<close>

theorem parenthesis_mismatch:
  assumes "exec VARIABLEREG equation = None"
    and "count_list equation CHR ''('' \<noteq> count_list equation CHR '')''"
  shows "\<exists>e. substituteVariables (Suc n) rt equation variables dependencies
                 = Some (Inl e, variables) \<and>
             (e = MoreOpening equation \<or> e = MoreClosing equation) \<and>
             kind e = ParenthesisMismatch"
  using assms by (auto simp: checkParentheses_def Let_def)

theorem parenthesis_mismatch_witness:
  "exec VARIABLEREG ''(2+3'' = None \<and>
   count_list ''(2+3'' CHR ''('' \<noteq> count_list ''(2+3'' CHR '')'' \<and>
   evaluateEquation 2 js ''(2+3'' Map.empty [] = Some (Inl (MoreOpening ''(2+3''), Map.empty) \<and>
   kind (MoreOpening ''(2+3'') = ParenthesisMismatch"
proof -
  have a: "exec VARIABLEREG ''(2+3'' = None" by code_simp
  have b: "count_list ''(2+3'' CHR ''('' \<noteq> count_list ''(2+3'' CHR '')''" by simp
  have c: "\<not> startsWith ''(2+3'' ''=''" by (simp add: startsWith_def)
  have d: "checkParentheses ''(2+3'' = Inl (MoreOpening ''(2+3'')" by (simp add: checkParentheses_def)
  show ?thesis
    using a b c d parenthesis_mismatch[OF a b, of 0 js Map.empty "[]"]
    by (auto simp: numeral_2_eq_2)
qed

text \<open>
  Claim C6. When the leftmost identifier of the text has no entry in the variables, or an entry
  whose value is undefined, the call throws the error of kind \<open>UndefinedVariable\<close>; otherwise,
  when the entry is disabled, it throws the error of kind \<open>DisabledVariable\<close>. Neither result
  depends on the dependencies or on the formula of the variable, and both hold for every
  fuel \<open>Suc n\<close>, also for \<open>n = 0\<close>, which leaves no fuel to evaluate a formula: the two checks
  come before the check for a cycle and before any recursive evaluation. The witness is
  the disabled variable \<^verbatim>\<open>{x: {value: "1", disabled: true}}\<close>, also with \<^verbatim>\<open>x\<close> among the
  dependencies.
\<close>

theorem undefined_then_disabled:
  assumes "exec VARIABLEREG equation = Some variable"
  shows "((variables (matched variable) = None \<or>
           (\<exists>var. variables (matched variable) = Some var \<and> val var = Undefined)) \<longrightarrow>
          substituteVariables (Suc n) rt equation variables dependencies
            = Some (Inl (FailedToSubstitute (matched variable)), variables) \<and>
          kind (FailedToSubstitute (matched variable)) = UndefinedVariable) \<and>
         ((\<exists>var. variables (matched variable) = Some var \<and> val var \<noteq> Undefined \<and> disabled var) \<longrightarrow>
          substituteVariables (Suc n) rt equation variables dependencies
            = Some (Inl (VariableIsDisabled (matched variable) equation), variables) \<and>
          kind (VariableIsDisabled (matched variable) equation) = DisabledVariable)"
  using assms by (auto simp: is_undefined_def is_disabled_def Let_def)

theorem undefined_then_disabled_witness:
  "exec VARIABLEREG ''x'' = Some \<lparr>index = 0, matched = ''x'', groups = []\<rparr> \<and>
   evaluateEquation 2 js ''x'' ex_disabled []
     = Some (Inl (VariableIsDisabled ''x'' ''x''), ex_disabled) \<and>
   evaluateEquation 2 js ''x'' ex_disabled [''x'']
     = Some (Inl (VariableIsDisabled ''x'' ''x''), ex_disabled) \<and>
   evaluateEquation 2 js ''x'' Map.empty [''x'']
     = Some (Inl (FailedToSubstitute ''x''), Map.empty)"
proof -
  have a: "exec VARIABLEREG ''x'' = Some \<lparr>index = 0, matched = ''x'', groups = []\<rparr>" by code_simp
  have c: "\<not> startsWith ''x'' ''=''" by (simp add: startsWith_def)
  show ?thesis
    using a c undefined_then_disabled[OF a, of ex_disabled 0 js "[''x'']"]
      undefined_then_disabled[OF a, of ex_disabled 0 js "[]"]
      undefined_then_disabled[OF a, of Map.empty 0 js "[''x'']"]
    by (simp add: numeral_2_eq_2 ex_disabled_def)
qed

subsection \<open>The variables after a call\<close>

lemma entry_kept_refl: "entry_kept a a"
  by (simp add: entry_kept_def split: option.splits)

lemma entry_kept_trans: "entry_kept a b \<Longrightarrow> entry_kept b c \<Longrightarrow> entry_kept a c"
  by (auto simp: entry_kept_def split: option.splits) metis+

lemma kept_refl: "kept vs vs"
  by (simp add: kept_def entry_kept_refl)

lemma kept_trans: "kept vs vs' \<Longrightarrow> kept vs' vs'' \<Longrightarrow> kept vs vs''"
  unfolding kept_def using entry_kept_trans by blast

lemma kept_assign:
  assumes "kept vs vs'" and "value_of vs x = Str s" and "v \<noteq> Undefined"
  shows "kept vs (assign_value vs' x v)"
  unfolding kept_def
proof
  fix k
  have e: "entry_kept (vs k) (vs' k)" using assms(1) by (simp add: kept_def)
  show "entry_kept (vs k) (assign_value vs' x v k)"
  proof (cases "k = x")
    case False
    then show ?thesis using e by (simp add: assign_value_def split: option.splits)
  next
    case True
    then show ?thesis using e assms(2,3)
      by (auto simp: assign_value_def value_of_def entry_kept_def split: option.splits)
  qed
qed

lemma resolveParentheses_defined:
  "resolveParentheses n rt s = Some (Inr v) \<Longrightarrow> v \<noteq> Undefined"
proof (induction n arbitrary: s v)
  case 0
  then show ?case by simp
next
  case (Suc n)
  then show ?case
    by (auto simp: Let_def split: option.splits sum.splits if_splits)
qed

lemma evaluate_substitute_kept:
  "(evaluateEquation n rt e vs ds = Some (r, vs') \<longrightarrow> kept vs vs' \<and> r \<noteq> Inr Undefined) \<and>
   (substituteVariables n rt e vs ds = Some (r, vs') \<longrightarrow> kept vs vs' \<and> r \<noteq> Inr Undefined)"
proof (induction n arbitrary: e vs ds r vs')
  case 0
  then show ?case by simp
next
  case (Suc n)
  have a: "evaluateEquation (Suc n) rt e vs ds = Some (r, vs') \<longrightarrow> kept vs vs' \<and> r \<noteq> Inr Undefined"
    using Suc.IH by simp
  have b: "kept vs vs' \<and> r \<noteq> Inr Undefined"
    if s: "substituteVariables (Suc n) rt e vs ds = Some (r, vs')"
  proof (cases "exec VARIABLEREG e")
    case None
    then show ?thesis using s resolveParentheses_defined[of n rt e]
      by (auto simp: kept_refl split: sum.splits option.splits)
  next
    case (Some m)
    let ?x = "matched m"
    show ?thesis
    proof (cases "is_undefined vs ?x \<or> is_disabled vs ?x \<or> ?x \<in> set ds")
      case True
      then show ?thesis using s Some by (auto simp: kept_refl Let_def split: if_splits)
    next
      case False
      show ?thesis
      proof (cases "value_of vs ?x")
        case Undefined
        then show ?thesis using s Some False Suc.IH
          by (auto simp: kept_refl Let_def split: if_splits)
      next
        case (Num x)
        then show ?thesis using s Some False Suc.IH
          by (auto simp: kept_refl Let_def split: if_splits)
      next
        case (Str formula)
        show ?thesis
        proof (cases "evaluateEquation n rt formula vs (ds @ [?x])")
          case None
          then show ?thesis using s Some False Str by (simp add: Let_def)
        next
          case inner: (Some p)
          obtain r1 vs1 where p: "p = (r1, vs1)" by (cases p)
          have k1: "kept vs vs1" "r1 \<noteq> Inr Undefined"
            using Suc.IH[of formula vs "ds @ [?x]" r1 vs1] inner p by simp_all
          show ?thesis
          proof (cases r1)
            case (Inl err)
            then show ?thesis using s Some False Str inner p k1 by (auto simp: Let_def)
          next
            case (Inr v)
            then have "v \<noteq> Undefined" using k1 by simp
            then have k2: "kept vs (assign_value vs1 ?x v)"
              using kept_assign[OF k1(1) Str] by simp
            show ?thesis
            proof (cases "e = substitute rt e (index m) ?x v")
              case True
              then show ?thesis using s Some False Str inner p Inr k2 by (auto simp: Let_def)
            next
              case ne: False
              then have "substituteVariables n rt (substitute rt e (index m) ?x v)
                           (assign_value vs1 ?x v) ds = Some (r, vs')"
                using s Some False Str inner p Inr by (simp add: Let_def)
              then have "kept (assign_value vs1 ?x v) vs' \<and> r \<noteq> Inr Undefined"
                using Suc.IH by blast
              then show ?thesis using k2 kept_trans by blast
            qed
          qed
        qed
      qed
    qed
  qed
  show ?case using a b by blast
qed


lemma kept_dom: "kept vs vs' \<Longrightarrow> dom vs' = dom vs"
  by (auto simp: kept_def entry_kept_def dom_def split: option.splits)

lemma kept_num:
  "kept vs vs' \<Longrightarrow> vs k = Some var \<Longrightarrow> val var = Num x \<Longrightarrow> vs' k = Some var"
proof -
  assume a: "kept vs vs'" "vs k = Some var" "val var = Num x"
  from a(1) have "entry_kept (vs k) (vs' k)" by (simp add: kept_def)
  with a(2,3) obtain var' where v: "vs' k = Some var'" "name var' = name var"
      "disabled var' = disabled var" "comment var' = comment var" "val var' = val var"
    by (auto simp: entry_kept_def split: option.splits)
  then have "var' = var" by (intro variable.equality) simp_all
  with v(1) show ?thesis by simp
qed

subsection \<open>Evaluations of concrete texts\<close>

lemma fuel_enough:
  "evaluateEquation m rt e vs ds = Some p \<Longrightarrow> evaluateEquation (n + m) rt e vs ds = Some p"
  using evaluate_substitute_mono[of m rt e vs ds p n] by (simp add: add.commute)

lemma fuel_enough_fst:
  assumes "map_option fst (evaluateEquation m rt e vs ds) = Some r"
  shows "map_option fst (evaluateEquation (n + m) rt e vs ds) = Some r"
proof -
  from assms obtain p where "evaluateEquation m rt e vs ds = Some p" "fst p = r" by auto
  then show ?thesis using fuel_enough[of m rt e vs ds p n] by simp
qed

lemma fuel_enough_values:
  assumes "values_of ks (evaluateEquation m rt e vs ds) = Some r"
  shows "values_of ks (evaluateEquation (n + m) rt e vs ds) = Some r"
proof -
  from assms obtain p where "evaluateEquation m rt e vs ds = Some p"
    by (auto simp: values_of_def)
  then show ?thesis using fuel_enough[of m rt e vs ds p n] assms by simp
qed

text \<open>
  Claim C2. With no variables, \<^verbatim>\<open>evaluate("2+3")\<close> is 5, \<^verbatim>\<open>evaluate("2+3*4")\<close> is 14,
  \<^verbatim>\<open>evaluate("(2+3)*4")\<close> is 20, \<^verbatim>\<open>evaluate("2^3")\<close> is 8, \<^verbatim>\<open>evaluate("7//2")\<close> is 3 and
  \<^verbatim>\<open>evaluate("7%2")\<close> is 1, for every fuel from the number of steps of each evaluation on.
\<close>

theorem evaluate_examples:
  "map_option fst (evaluateEquation (n + 5) js ''2+3'' Map.empty []) = Some (Inr (Num (Finite 5))) \<and>
   map_option fst (evaluateEquation (n + 6) js ''2+3*4'' Map.empty []) = Some (Inr (Num (Finite 14))) \<and>
   map_option fst (evaluateEquation (n + 7) js ''(2+3)*4'' Map.empty []) = Some (Inr (Num (Finite 20))) \<and>
   map_option fst (evaluateEquation (n + 5) js ''2^3'' Map.empty []) = Some (Inr (Num (Finite 8))) \<and>
   map_option fst (evaluateEquation (n + 5) js ''7//2'' Map.empty []) = Some (Inr (Num (Finite 3))) \<and>
   map_option fst (evaluateEquation (n + 5) js ''7%2'' Map.empty []) = Some (Inr (Num (Finite 1)))"
proof -
  have 1: "map_option fst (evaluateEquation 5 js ''2+3'' Map.empty []) = Some (Inr (Num (Finite 5)))"
    by code_simp
  have 2: "map_option fst (evaluateEquation 6 js ''2+3*4'' Map.empty []) = Some (Inr (Num (Finite 14)))"
    by code_simp
  have 3: "map_option fst (evaluateEquation 7 js ''(2+3)*4'' Map.empty []) = Some (Inr (Num (Finite 20)))"
    by code_simp
  have 4: "map_option fst (evaluateEquation 5 js ''2^3'' Map.empty []) = Some (Inr (Num (Finite 8)))"
    by code_simp
  have 5: "map_option fst (evaluateEquation 5 js ''7//2'' Map.empty []) = Some (Inr (Num (Finite 3)))"
    by code_simp
  have 6: "map_option fst (evaluateEquation 5 js ''7%2'' Map.empty []) = Some (Inr (Num (Finite 1)))"
    by code_simp
  show ?thesis
    using fuel_enough_fst[OF 1, of n] fuel_enough_fst[OF 2, of n] fuel_enough_fst[OF 3, of n]
      fuel_enough_fst[OF 4, of n] fuel_enough_fst[OF 5, of n] fuel_enough_fst[OF 6, of n]
    by simp
qed

text \<open>
  Claim C1: every call that does not throw returns a Number, also on a text such as
  \<^verbatim>\<open>1)(2\<close>, with as many opening as closing parentheses and a closing one first. The code
  departs from the claim on that text: \<open>checkParentheses\<close> accepts the equal counts,
  \<open>resolveParentheses\<close> takes the branch of line 129, and the call returns the concatenation
  of line 131, the string \<^verbatim>\<open>1(2\<close>, for every fuel from 5 on.
\<close>

theorem closing_before_opening_returns_string:
  "map_option fst (evaluateEquation (n + 5) js ''1)(2'' Map.empty []) = Some (Inr (Str ''1(2''))"
proof -
  have "map_option fst (evaluateEquation 5 js ''1)(2'' Map.empty []) = Some (Inr (Str ''1(2''))"
    by code_simp
  then show ?thesis by (rule fuel_enough_fst)
qed

text \<open>
  Claim C5. With the variables \<^verbatim>\<open>a = {value: "b+1"}\<close> and \<^verbatim>\<open>b = {value: "2"}\<close>,
  \<^verbatim>\<open>evaluate("a")\<close> is 3 and leaves the Numbers 3 and 2 in the \<^verbatim>\<open>value\<close> fields of \<^verbatim>\<open>a\<close> and
  \<^verbatim>\<open>b\<close>. A second evaluation with the variables as the first one leaves them gives 3 again
  and needs 5 units of fuel only, which is not enough for the first one: it reads the
  Numbers and evaluates no formula.
\<close>

theorem chained_formulas_memoized:
  "values_of [''a'', ''b''] (evaluateEquation (n + 8) js ''a'' ex_chain [])
     = Some (Inr (Num (Finite 3)), [Num (Finite 3), Num (Finite 2)]) \<and>
   (case evaluateEquation (n + 8) js ''a'' ex_chain [] of
      None \<Rightarrow> False
    | Some (r, variables') \<Rightarrow>
        values_of [''a'', ''b''] (evaluateEquation (m + 5) js ''a'' variables' [])
          = Some (Inr (Num (Finite 3)), [Num (Finite 3), Num (Finite 2)])) \<and>
   evaluateEquation 5 js ''a'' ex_chain [] = None"
proof -
  have 1: "values_of [''a'', ''b''] (evaluateEquation 8 js ''a'' ex_chain [])
            = Some (Inr (Num (Finite 3)), [Num (Finite 3), Num (Finite 2)])"
    by code_simp
  then obtain r vs where p: "evaluateEquation 8 js ''a'' ex_chain [] = Some (r, vs)"
    by (auto simp: values_of_def)
  have "(case evaluateEquation 8 js ''a'' ex_chain [] of
      None \<Rightarrow> False
    | Some (r, variables') \<Rightarrow>
        values_of [''a'', ''b''] (evaluateEquation 5 js ''a'' variables' [])
          = Some (Inr (Num (Finite 3)), [Num (Finite 3), Num (Finite 2)]))"
    by code_simp
  then have 2: "values_of [''a'', ''b''] (evaluateEquation 5 js ''a'' vs [])
          = Some (Inr (Num (Finite 3)), [Num (Finite 3), Num (Finite 2)])"
    using p by simp
  have 3: "map_option fst (evaluateEquation 5 js ''a'' ex_chain []) = None"
    by code_simp
  show ?thesis
    using fuel_enough_values[OF 1, of n] fuel_enough[OF p, of n] fuel_enough_values[OF 2, of m] 3
    by simp
qed

text \<open>
  Claim C9. Whatever a call of \<open>evaluateEquation\<close> returns or throws, the variables have the
  same keys after the call as before it, and every entry has the \<^verbatim>\<open>name\<close>, \<^verbatim>\<open>disabled\<close>
  and \<^verbatim>\<open>comment\<close> it had before.
\<close>

theorem variables_frame:
  assumes "evaluateEquation n rt equation variables dependencies = Some (r, variables')"
  shows "dom variables' = dom variables \<and>
         (\<forall>k var var'. variables k = Some var \<and> variables' k = Some var' \<longrightarrow>
            name var' = name var \<and> disabled var' = disabled var \<and> comment var' = comment var)"
proof -
  have k: "kept variables variables'"
    using assms evaluate_substitute_kept[of n rt equation variables dependencies r variables']
    by simp
  have "name var' = name var \<and> disabled var' = disabled var \<and> comment var' = comment var"
    if "variables k = Some var" "variables' k = Some var'" for k var var'
  proof -
    have "entry_kept (variables k) (variables' k)" using k by (simp add: kept_def)
    then show ?thesis using that by (simp add: entry_kept_def)
  qed
  then show ?thesis using kept_dom[OF k] by blast
qed

theorem variables_frame_witness:
  "\<exists>variables'.
     evaluateEquation 8 js ''a'' ex_chain [] = Some (Inr (Num (Finite 3)), variables') \<and>
     dom variables' = dom ex_chain \<and>
     map_option val (variables' ''a'') = Some (Num (Finite 3)) \<and>
     map_option disabled (variables' ''a'') = Some False \<and>
     map_option name (variables' ''a'') = Some ''a'' \<and>
     map_option comment (variables' ''a'') = Some ''''"
proof -
  have 1: "values_of [''a''] (evaluateEquation 8 js ''a'' ex_chain [])
            = Some (Inr (Num (Finite 3)), [Num (Finite 3)])"
    by code_simp
  then obtain vs where p: "evaluateEquation 8 js ''a'' ex_chain [] = Some (Inr (Num (Finite 3)), vs)"
    and v: "value_of vs ''a'' = Num (Finite 3)"
    by (auto simp: values_of_def)
  have a: "ex_chain ''a'' = Some \<lparr>name = ''a'', val = Str ''b+1'', disabled = False, comment = ''''\<rparr>"
    by (simp add: ex_chain_def)
  from variables_frame[OF p] have d: "dom vs = dom ex_chain"
    and f: "\<And>var'. vs ''a'' = Some var' \<Longrightarrow> name var' = ''a'' \<and> disabled var' = False \<and> comment var' = ''''"
    using a by auto
  have "''a'' \<in> dom vs" using d a by auto
  then obtain var' where s: "vs ''a'' = Some var'" by auto
  show ?thesis
    using p d s f[OF s] v by (auto simp: value_of_def)
qed

lemma no_identifier_state:
  "exec VARIABLEREG e = None \<Longrightarrow> substituteVariables n rt e vs ds = Some (r, vs') \<Longrightarrow> vs' = vs"
  by (cases n) (auto split: sum.splits option.splits)

subsection \<open>The selection of a match\<close>

lemma match_at_index: "match_at r s i = Some m \<Longrightarrow> index m = i"
  by (auto simp: match_at_def split: option.splits)

lemma scan_Some:
  "scan r s i n = Some m \<Longrightarrow>
     i \<le> index m \<and> index m \<le> i + n \<and> match_at r s (index m) = Some m \<and>
     (\<forall>j. i \<le> j \<and> j < index m \<longrightarrow> match_at r s j = None)"
proof (induction n arbitrary: i)
  case 0
  then show ?case using match_at_index[of r s i m] by auto
next
  case (Suc n)
  show ?case
  proof (cases "match_at r s i")
    case None
    then have "scan r s (Suc i) n = Some m" using Suc.prems by simp
    from Suc.IH[OF this] show ?thesis using None
      by (auto simp: less_Suc_eq_le dest: le_neq_implies_less)
  next
    case (Some m')
    then have "m' = m" using Suc.prems by simp
    then show ?thesis using Some match_at_index[of r s i m] by auto
  qed
qed

lemma scan_None':
  "scan r s i n = None \<Longrightarrow> i \<le> j \<Longrightarrow> j \<le> i + n \<Longrightarrow> match_at r s j = None"
proof (induction n arbitrary: i)
  case 0
  then show ?case by simp
next
  case (Suc n)
  show ?case
  proof (cases "j = i")
    case True
    then show ?thesis using Suc.prems by (auto split: option.splits)
  next
    case False
    have "scan r s (Suc i) n = None" using Suc.prems by (auto split: option.splits)
    from Suc.IH[OF this] show ?thesis using False Suc.prems by simp
  qed
qed

lemma exec_Some:
  assumes "exec r s = Some m"
  shows "index m \<le> length s" "match_at r s (index m) = Some m"
    "j < index m \<Longrightarrow> match_at r s j = None"
  using scan_Some[of r s 0 "length s" m] assms by (auto simp: exec_def)

lemma exec_None: "exec r s = None \<Longrightarrow> j \<le> length s \<Longrightarrow> match_at r s j = None"
  using scan_None'[of r s 0 "length s" j] by (simp add: exec_def)

lemma selected_Cons_later:
  assumes "selected tier s m f" and "\<forall>j \<le> index m. \<not> matches_at operator s j"
  shows "selected ((operator, g) # tier) s m f"
proof -
  from assms(1) obtain pre op post where d: "tier = pre @ (op, f) # post"
    "exec (operation_regex op) s = Some m"
    "\<forall>p \<in> set pre. \<forall>j \<le> index m. \<not> matches_at (fst p) s j"
    "\<forall>p \<in> set post. \<forall>j < index m. \<not> matches_at (fst p) s j"
    unfolding selected_def by blast
  have "(operator, g) # tier = ((operator, g) # pre) @ (op, f) # post" using d(1) by simp
  moreover have "\<forall>p \<in> set ((operator, g) # pre). \<forall>j \<le> index m. \<not> matches_at (fst p) s j"
    using d(3) assms(2) by simp
  ultimately show ?thesis unfolding selected_def using d(2,4) by blast
qed

lemma select_match_acc:
  assumes "index m0 \<le> length s"
  shows "\<exists>m f. select_match tier s (Some (m0, f0)) = Some (m, f) \<and>
           ((m = m0 \<and> f = f0 \<and> (\<forall>p \<in> set tier. \<forall>j < index m0. \<not> matches_at (fst p) s j)) \<or>
            (index m < index m0 \<and> selected tier s m f))"
  using assms
proof (induction tier arbitrary: m0 f0)
  case Nil
  then show ?case by simp
next
  case (Cons a tier)
  obtain operator g where a: "a = (operator, g)" by (cases a)
  show ?case
  proof (cases "exec (operation_regex operator) s")
    case None
    then have no: "\<forall>j \<le> length s. \<not> matches_at operator s j"
      by (simp add: matches_at_def exec_None)
    from Cons.IH[OF Cons.prems, of f0] obtain m f where
      r: "select_match tier s (Some (m0, f0)) = Some (m, f)"
      and c: "(m = m0 \<and> f = f0 \<and> (\<forall>p \<in> set tier. \<forall>j < index m0. \<not> matches_at (fst p) s j)) \<or>
            (index m < index m0 \<and> selected tier s m f)" by blast
    have s: "select_match (a # tier) s (Some (m0, f0)) = Some (m, f)"
      using None r a by simp
    from c show ?thesis
    proof
      assume "m = m0 \<and> f = f0 \<and> (\<forall>p \<in> set tier. \<forall>j < index m0. \<not> matches_at (fst p) s j)"
      then show ?thesis using s no a Cons.prems by auto
    next
      assume b: "index m < index m0 \<and> selected tier s m f"
      then have "\<forall>j \<le> index m. \<not> matches_at operator s j" using no Cons.prems by auto
      then have "selected (a # tier) s m f"
        using selected_Cons_later[of tier s m f operator g] b a by simp
      then show ?thesis using s b by blast
    qed
  next
    case (Some m1)
    note e = exec_Some[OF Some]
    have before: "\<forall>j < index m1. \<not> matches_at operator s j"
      using e(3) by (simp add: matches_at_def)
    show ?thesis
    proof (cases "index m1 < index m0")
      case True
      from Cons.IH[OF e(1), of g] obtain m f where
        r: "select_match tier s (Some (m1, g)) = Some (m, f)"
        and c: "(m = m1 \<and> f = g \<and> (\<forall>p \<in> set tier. \<forall>j < index m1. \<not> matches_at (fst p) s j)) \<or>
            (index m < index m1 \<and> selected tier s m f)" by blast
      have s: "select_match (a # tier) s (Some (m0, f0)) = Some (m, f)"
        using Some r a True by simp
      from c show ?thesis
      proof
        assume h: "m = m1 \<and> f = g \<and> (\<forall>p \<in> set tier. \<forall>j < index m1. \<not> matches_at (fst p) s j)"
        then have "selected (a # tier) s m f"
          unfolding selected_def using a Some
          by (intro exI[of _ "[]"] exI[of _ operator] exI[of _ tier]) simp
        then show ?thesis using s h True by blast
      next
        assume b: "index m < index m1 \<and> selected tier s m f"
        then have "\<forall>j \<le> index m. \<not> matches_at operator s j" using before by auto
        then have "selected (a # tier) s m f"
        using selected_Cons_later[of tier s m f operator g] b a by simp
        then show ?thesis using s b True by auto
      qed
    next
      case False
      from Cons.IH[OF Cons.prems, of f0] obtain m f where
        r: "select_match tier s (Some (m0, f0)) = Some (m, f)"
        and c: "(m = m0 \<and> f = f0 \<and> (\<forall>p \<in> set tier. \<forall>j < index m0. \<not> matches_at (fst p) s j)) \<or>
            (index m < index m0 \<and> selected tier s m f)" by blast
      have s: "select_match (a # tier) s (Some (m0, f0)) = Some (m, f)"
        using Some r a False by simp
      from c show ?thesis
      proof
        assume "m = m0 \<and> f = f0 \<and> (\<forall>p \<in> set tier. \<forall>j < index m0. \<not> matches_at (fst p) s j)"
        then show ?thesis using s before a False by auto
      next
        assume b: "index m < index m0 \<and> selected tier s m f"
        then have "\<forall>j \<le> index m. \<not> matches_at operator s j" using before False by auto
        then have "selected (a # tier) s m f"
        using selected_Cons_later[of tier s m f operator g] b a by simp
        then show ?thesis using s b by blast
      qed
    qed
  qed
qed

lemma select_match_None:
  "select_match tier s None = None \<Longrightarrow> p \<in> set tier \<Longrightarrow> j \<le> length s \<Longrightarrow> \<not> matches_at (fst p) s j"
proof (induction tier)
  case Nil
  then show ?case by simp
next
  case (Cons a tier)
  obtain operator g where a: "a = (operator, g)" by (cases a)
  show ?case
  proof (cases "exec (operation_regex operator) s")
    case None
    then show ?thesis using Cons a by (auto simp: matches_at_def exec_None)
  next
    case (Some m1)
    then show ?thesis
      using Cons.prems(1) a select_match_acc[OF exec_Some(1)[OF Some], of tier g] by auto
  qed
qed

lemma select_match_Some:
  "select_match tier s None = Some (m, f) \<Longrightarrow> selected tier s m f"
proof (induction tier)
  case Nil
  then show ?case by simp
next
  case (Cons a tier)
  obtain operator g where a: "a = (operator, g)" by (cases a)
  show ?case
  proof (cases "exec (operation_regex operator) s")
    case None
    then have r: "select_match tier s None = Some (m, f)" using Cons.prems a by simp
    then have sel: "selected tier s m f" by (rule Cons.IH)
    then have "index m \<le> length s" unfolding selected_def using exec_Some(1) by blast
    then have "\<forall>j \<le> index m. \<not> matches_at operator s j"
      using None by (simp add: matches_at_def exec_None)
    then show ?thesis using selected_Cons_later[of tier s m f operator g] sel a by simp
  next
    case (Some m1)
    note e = exec_Some[OF Some]
    from select_match_acc[OF e(1), of tier g] obtain m' f' where
      r: "select_match tier s (Some (m1, g)) = Some (m', f')"
      and c: "(m' = m1 \<and> f' = g \<and> (\<forall>p \<in> set tier. \<forall>j < index m1. \<not> matches_at (fst p) s j)) \<or>
            (index m' < index m1 \<and> selected tier s m' f')" by blast
    have eq: "m' = m" "f' = f" using Cons.prems Some a r by simp_all
    from c show ?thesis
    proof
      assume h: "m' = m1 \<and> f' = g \<and> (\<forall>p \<in> set tier. \<forall>j < index m1. \<not> matches_at (fst p) s j)"
      then show ?thesis
        unfolding selected_def using a Some eq
        by (intro exI[of _ "[]"] exI[of _ operator] exI[of _ tier]) simp
    next
      assume b: "index m' < index m1 \<and> selected tier s m' f'"
      then have "\<forall>j \<le> index m. \<not> matches_at operator s j"
        using e(3) eq by (auto simp: matches_at_def)
      then show ?thesis using selected_Cons_later[of tier s m f operator g] b a eq by simp
    qed
  qed
qed

lemma find_upt_least:
  assumes "P j" "j < n" "\<forall>i < j. \<not> P i"
  shows "find P [0..<n] = Some j"
proof -
  have "\<exists>i<length [0..<n]. P ([0..<n] ! i) \<and> j = [0..<n] ! i \<and> (\<forall>k<i. \<not> P ([0..<n] ! k))"
    using assms by (intro exI[of _ j]) auto
  then show ?thesis by (simp only: find_Some_iff)
qed

lemma find_append': "find P (xs @ ys) = (case find P xs of None \<Rightarrow> find P ys | Some x \<Rightarrow> Some x)"
  by (induction xs) auto

lemma select_match_spec: "select_match tier s None = spec_select tier s"
proof (cases "select_match tier s None")
  case None
  have "\<not> list_ex (\<lambda>p. matches_at (fst p) s j) tier" if "j \<in> set [0..<Suc (length s)]" for j
    using select_match_None[OF None] that by (auto simp: list_ex_iff)
  then have "find (\<lambda>j. list_ex (\<lambda>p. matches_at (fst p) s j) tier) [0..<Suc (length s)] = None"
    by (simp only: find_None_iff) blast
  then show ?thesis using None by (simp add: spec_select_def)
next
  case (Some r)
  obtain m f where r: "r = (m, f)" by (cases r)
  from select_match_Some[of tier s m f] Some r obtain pre operator post where
    d: "tier = pre @ (operator, f) # post"
      "exec (operation_regex operator) s = Some m"
      "\<forall>p \<in> set pre. \<forall>j \<le> index m. \<not> matches_at (fst p) s j"
      "\<forall>p \<in> set post. \<forall>j < index m. \<not> matches_at (fst p) s j"
    unfolding selected_def by blast
  note e = exec_Some[OF d(2)]
  have here: "matches_at operator s (index m)" using e(2) by (simp add: matches_at_def)
  have 1: "list_ex (\<lambda>p. matches_at (fst p) s (index m)) tier"
    using here d(1) by (auto simp: list_ex_iff)
  have 2: "\<forall>i < index m. \<not> list_ex (\<lambda>p. matches_at (fst p) s i) tier"
    using d e(3) by (auto simp: list_ex_iff matches_at_def)
  have f1: "find (\<lambda>j. list_ex (\<lambda>p. matches_at (fst p) s j) tier) [0..<Suc (length s)] = Some (index m)"
    using find_upt_least[of "\<lambda>j. list_ex (\<lambda>p. matches_at (fst p) s j) tier" "index m" "Suc (length s)"]
      1 2 e(1) by simp
  have "find (\<lambda>p. matches_at (fst p) s (index m)) pre = None"
    using d(3) by (simp only: find_None_iff) blast
  then have f2: "find (\<lambda>p. matches_at (fst p) s (index m)) tier = Some (operator, f)"
    using here d(1) by (simp add: find_append')
  show ?thesis using Some r f1 f2 e(2) by (simp add: spec_select_def)
qed

lemma first_match_spec: "first_match tiers s = spec_first_match tiers s"
  by (induction tiers) (auto simp: spec_first_match_def select_match_spec split: option.splits)

lemma slice_take: "slice s 0 (int i) = take i s"
  by (simp add: slice_def Let_def min_def)

lemma slice_from_drop: "slice_from s (int k) = drop k s"
  by (simp add: slice_from_def slice_def Let_def min_def)

lemma slice_from_drop_sum: "slice_from s (int i + int k) = drop (i + k) s"
  using slice_from_drop[of s "i + k"] by simp

text \<open>
  Claim C3. The tiers are \<^verbatim>\<open>^\<close>, then \<^verbatim>\<open>*\<close>, \<^verbatim>\<open>//\<close>, \<^verbatim>\<open>/\<close>, \<^verbatim>\<open>%\<close> in this order, then \<^verbatim>\<open>+\<close>,
  \<^verbatim>\<open>-\<close>. What the two loops of \<open>evaluateOperations\<close> select is the selection of the
  specification: in the first tier with a match of one of its patterns, the match with the
  smallest starting offset, of the operator declared first among those that match there.
  And \<open>evaluateOperations\<close> is the reduction of the specification, which after every splice
  scans all tiers again on the new text.
\<close>

theorem operator_reduction_order:
  "map (map fst) (OPERATIONPRIORITY rt) = [[''^''], [''*'', ''//'', ''/'', ''%''], [''+'', ''-'']] \<and>
   first_match (OPERATIONPRIORITY rt) equation = spec_first_match (OPERATIONPRIORITY rt) equation \<and>
   evaluateOperations n rt equation = reduce n rt equation"
proof -
  have "evaluateOperations n rt equation = reduce n rt equation"
  proof (induction n arbitrary: equation)
    case 0
    show ?case by simp
  next
    case (Suc n)
    show ?case
      by (auto simp: first_match_spec[symmetric] slice_take slice_from_drop_sum Let_def Suc.IH
          split: option.splits sum.splits)
  qed
  then show ?thesis
    by (simp add: first_match_spec) (simp add: OPERATIONPRIORITY_def)
qed

subsection \<open>The dependencies along the calls\<close>

lemma kept_checks:
  assumes "kept vs vs'"
  shows "is_undefined vs' d = is_undefined vs d" "is_disabled vs' d = is_disabled vs d"
proof -
  have "entry_kept (vs d) (vs' d)" using assms by (simp add: kept_def)
  then show "is_undefined vs' d = is_undefined vs d" "is_disabled vs' d = is_disabled vs d"
    by (auto simp: entry_kept_def is_undefined_def is_disabled_def split: option.splits)
qed

lemma invokes_sound:
  assumes "invokes c c'" and "sound_stack c"
  shows "sound_stack c'"
  using assms
proof (induction rule: invokes.induct)
  case (body n rt equation variables dependencies)
  then show ?case by (simp add: sound_stack_def)
next
  case (formula equation variable variables dependencies formula n rt)
  then show ?case by (simp add: sound_stack_def)
next
  case (after_formula equation variable variables dependencies formula n rt v variables')
  have k: "kept variables variables'" "v \<noteq> Undefined"
    using after_formula(6)
      evaluate_substitute_kept[of n rt formula variables "dependencies @ [matched variable]" "Inr v" variables']
    by auto
  have "kept variables (assign_value variables' (matched variable) v)"
    using kept_assign[OF k(1) after_formula(5) k(2)] .
  then show ?case using after_formula(8) kept_checks[of variables]
    by (simp add: sound_stack_def)
next
  case (after_number equation variable variables dependencies x rt n)
  then show ?case by (simp add: sound_stack_def)
qed

lemma chain_sound:
  "invokes\<^sup>*\<^sup>* c0 c \<Longrightarrow> sound_stack c0 \<Longrightarrow> sound_stack c"
  by (induction rule: rtranclp_induct) (auto intro: invokes_sound)

text \<open>
  Claim C4. In every call that a top-level call with no dependencies leads to, directly or
  through other calls, the dependencies have no duplicate. When such a call of
  \<open>substituteVariables\<close> finds as leftmost identifier one of its dependencies, it throws the
  error of kind \<open>CyclicDependency\<close>, leaves the variables as they are and makes no call, so
  the identifier is not added a second time. The witness is the variable
  \<^verbatim>\<open>a = {value: "a+1"}\<close>: \<^verbatim>\<open>evaluate("a")\<close> reaches the text \<^verbatim>\<open>a+1\<close> with \<^verbatim>\<open>a\<close> in the
  dependencies and throws; so does the cycle through two variables \<^verbatim>\<open>a = {value: "b+1"}\<close>,
  \<^verbatim>\<open>b = {value: "a*2"}\<close>.
\<close>

theorem dependency_stack_never_repeats:
  assumes "invokes\<^sup>*\<^sup>* (Evaluate n rt equation variables []) c"
  shows "distinct (dependencies_of c) \<and>
         (\<forall>m rt' e vs ds variable.
            c = Substitute (Suc m) rt' e vs ds \<and> exec VARIABLEREG e = Some variable \<and>
            matched variable \<in> set ds \<longrightarrow>
            substituteVariables (Suc m) rt' e vs ds
              = Some (Inl (CyclicalDependency (matched variable) e), vs) \<and>
            kind (CyclicalDependency (matched variable) e) = CyclicDependency \<and>
            (\<forall>c'. \<not> invokes c c'))"
proof -
  have "sound_stack (Evaluate n rt equation variables [])" by (simp add: sound_stack_def)
  then have s: "sound_stack c" using chain_sound[OF assms] by simp
  have "substituteVariables (Suc m) rt' e vs ds
              = Some (Inl (CyclicalDependency (matched variable) e), vs) \<and>
        kind (CyclicalDependency (matched variable) e) = CyclicDependency \<and>
            (\<forall>c'. \<not> invokes c c')"
    if c: "c = Substitute (Suc m) rt' e vs ds" and e: "exec VARIABLEREG e = Some variable"
      and x: "matched variable \<in> set ds" for m rt' e vs ds variable
  proof -
    have ok: "\<not> is_undefined vs (matched variable)" "\<not> is_disabled vs (matched variable)"
      using s c x by (auto simp: sound_stack_def list_all_iff)
    have "\<not> invokes c c'" for c'
    proof
      assume "invokes c c'"
      then show False using c e x by (cases rule: invokes.cases) auto
    qed
    then show ?thesis using ok e x by (simp add: Let_def)
  qed
  then show ?thesis using s by (auto simp: sound_stack_def)
qed

theorem dependency_stack_never_repeats_witness:
  "invokes\<^sup>*\<^sup>* (Evaluate 4 js ''a'' ex_self []) (Substitute 1 js ''a+1'' ex_self [''a'']) \<and>
   distinct [''a''] \<and>
   substituteVariables 1 js ''a+1'' ex_self [''a'']
     = Some (Inl (CyclicalDependency ''a'' ''a+1''), ex_self) \<and>
   evaluateEquation 4 js ''a'' ex_self [] = Some (Inl (CyclicalDependency ''a'' ''a+1''), ex_self) \<and>
   kind (CyclicalDependency ''a'' ''a+1'') = CyclicDependency \<and>
   map_option fst (evaluateEquation 6 js ''a'' ex_cycle [])
     = Some (Inl (CyclicalDependency ''a'' ''a*2''))"
proof -
  have cycle: "map_option fst (evaluateEquation 6 js ''a'' ex_cycle [])
     = Some (Inl (CyclicalDependency ''a'' ''a*2''))"
    by code_simp
  have m1: "exec VARIABLEREG ''a'' = Some \<lparr>index = 0, matched = ''a'', groups = []\<rparr>"
    by code_simp
  have m2: "exec VARIABLEREG ''a+1'' = Some \<lparr>index = 0, matched = ''a'', groups = []\<rparr>"
    by code_simp
  have q: "\<not> startsWith ''a'' ''=''" "\<not> startsWith ''a+1'' ''=''" by (simp_all add: startsWith_def)
  have v: "\<not> is_undefined ex_self ''a''" "\<not> is_disabled ex_self ''a''"
    "value_of ex_self ''a'' = Str ''a+1''"
    by (simp_all add: is_undefined_def is_disabled_def value_of_def ex_self_def)
  have 1: "invokes (Evaluate 4 js ''a'' ex_self []) (Substitute 3 js ''a'' ex_self [])"
    using invokes.body[of 3 js "''a''" ex_self "[]"] q by (simp add: numeral_eq_Suc)
  have 2: "invokes (Substitute 3 js ''a'' ex_self []) (Evaluate 2 js ''a+1'' ex_self [''a''])"
    using invokes.formula[OF m1, of ex_self "[]" "''a+1''" 2 js] v by (simp add: numeral_eq_Suc)
  have 3: "invokes (Evaluate 2 js ''a+1'' ex_self [''a'']) (Substitute 1 js ''a+1'' ex_self [''a''])"
    using invokes.body[of 1 js "''a+1''" ex_self "[''a'']"] q by (simp add: numeral_eq_Suc)
  have chain: "invokes\<^sup>*\<^sup>* (Evaluate 4 js ''a'' ex_self []) (Substitute 1 js ''a+1'' ex_self [''a''])"
    using 1 2 3 by (meson rtranclp.rtrancl_into_rtrancl rtranclp.rtrancl_refl)
  have t: "substituteVariables 1 js ''a+1'' ex_self [''a'']
     = Some (Inl (CyclicalDependency ''a'' ''a+1''), ex_self)"
    using dependency_stack_never_repeats[OF chain] m2 by simp
  have "evaluateEquation 4 js ''a'' ex_self [] = Some (Inl (CyclicalDependency ''a'' ''a+1''), ex_self)"
    using t m1 q v by (simp add: numeral_eq_Suc)
  then show ?thesis using chain t cycle by simp
qed

subsection \<open>Numbers written before a throw\<close>

lemma assign_value_other: "k \<noteq> x \<Longrightarrow> assign_value vs x v k = vs k"
  by (simp add: assign_value_def split: option.splits)

lemma dependencies_untouched:
  "(evaluateEquation n rt e vs ds = Some (r, vs') \<longrightarrow> (\<forall>d \<in> set ds. vs' d = vs d)) \<and>
   (substituteVariables n rt e vs ds = Some (r, vs') \<longrightarrow> (\<forall>d \<in> set ds. vs' d = vs d))"
proof (induction n arbitrary: e vs ds r vs')
  case 0
  then show ?case by simp
next
  case (Suc n)
  have a: "evaluateEquation (Suc n) rt e vs ds = Some (r, vs') \<longrightarrow> (\<forall>d \<in> set ds. vs' d = vs d)"
    using Suc.IH by simp
  have b: "\<forall>d \<in> set ds. vs' d = vs d"
    if s: "substituteVariables (Suc n) rt e vs ds = Some (r, vs')"
  proof (cases "exec VARIABLEREG e")
    case None
    then show ?thesis using s by (auto split: sum.splits option.splits)
  next
    case (Some m)
    let ?x = "matched m"
    show ?thesis
    proof (cases "is_undefined vs ?x \<or> is_disabled vs ?x \<or> ?x \<in> set ds")
      case True
      then show ?thesis using s Some by (auto simp: Let_def split: if_splits)
    next
      case False
      show ?thesis
      proof (cases "value_of vs ?x")
        case Undefined
        then show ?thesis using s Some False Suc.IH
          by (auto simp: Let_def split: if_splits)
      next
        case (Num x)
        then show ?thesis using s Some False Suc.IH
          by (auto simp: Let_def split: if_splits)
      next
        case (Str formula)
        show ?thesis
        proof (cases "evaluateEquation n rt formula vs (ds @ [?x])")
          case None
          then show ?thesis using s Some False Str by (simp add: Let_def)
        next
          case inner: (Some p)
          obtain r1 vs1 where p: "p = (r1, vs1)" by (cases p)
          have k1: "\<forall>d \<in> set ds. vs1 d = vs d"
            using Suc.IH[of formula vs "ds @ [?x]" r1 vs1] inner p by simp
          show ?thesis
          proof (cases r1)
            case (Inl err)
            then show ?thesis using s Some False Str inner p k1 by (auto simp: Let_def)
          next
            case (Inr v)
            have k2: "\<forall>d \<in> set ds. assign_value vs1 ?x v d = vs d"
            proof
              fix d assume d: "d \<in> set ds"
              then have "d \<noteq> ?x" using False by auto
              then show "assign_value vs1 ?x v d = vs d"
                using k1 d by (simp add: assign_value_other)
            qed
            show ?thesis
            proof (cases "e = substitute rt e (index m) ?x v")
              case True
              then show ?thesis using s Some False Str inner p Inr k2 by (auto simp: Let_def)
            next
              case ne: False
              then have "substituteVariables n rt (substitute rt e (index m) ?x v)
                           (assign_value vs1 ?x v) ds = Some (r, vs')"
                using s Some False Str inner p Inr by (simp add: Let_def)
              then have "\<forall>d \<in> set ds. vs' d = assign_value vs1 ?x v d"
                using Suc.IH by blast
              then show ?thesis using k2 by simp
            qed
          qed
        qed
      qed
    qed
  qed
  show ?case using a b by blast
qed

lemma formula_entry_untouched:
  assumes "evaluateEquation n rt formula vs (ds @ [x]) = Some (r, vs1)"
  shows "vs1 x = vs x"
  using dependencies_untouched[of n rt formula vs "ds @ [x]" r vs1] assms by simp

lemma invokes_outcome:
  assumes "invokes c c'" and "outcome c = Some (r, vsF)"
  shows "\<exists>r' vsF'. outcome c' = Some (r', vsF') \<and> kept vsF' vsF"
  using assms
proof (induction rule: invokes.induct)
  case (body n rt equation variables dependencies)
  then show ?case by (auto simp: kept_refl)
next
  case (formula equation variable variables dependencies formula n rt)
  let ?x = "matched variable"
  show ?case
  proof (cases "evaluateEquation n rt formula variables (dependencies @ [?x])")
    case None
    then show ?thesis using formula by (simp add: Let_def)
  next
    case (Some p)
    obtain r1 vs1 where p: "p = (r1, vs1)" by (cases p)
    have inner: "evaluateEquation n rt formula variables (dependencies @ [?x]) = Some (r1, vs1)"
      using Some p by simp
    have d: "r1 \<noteq> Inr Undefined"
      using evaluate_substitute_kept[of n rt formula variables "dependencies @ [?x]" r1 vs1] inner
      by simp
    have same: "value_of vs1 ?x = Str formula"
      using formula_entry_untouched[OF inner] formula(5) by (simp add: value_of_def)
    show ?thesis
    proof (cases r1)
      case (Inl err)
      then have "vsF = vs1" using formula inner by (auto simp: Let_def)
      then show ?thesis using inner by (auto simp: kept_refl)
    next
      case (Inr v)
      then have "v \<noteq> Undefined" using d by simp
      then have k2: "kept vs1 (assign_value vs1 ?x v)"
        using kept_assign[OF kept_refl same] by simp
      show ?thesis
      proof (cases "equation = substitute rt equation (index variable) ?x v")
        case True
        then have "vsF = assign_value vs1 ?x v" using formula inner Inr by (auto simp: Let_def)
        then show ?thesis using inner k2 by auto
      next
        case False
        then have "substituteVariables n rt (substitute rt equation (index variable) ?x v)
                     (assign_value vs1 ?x v) dependencies = Some (r, vsF)"
          using formula inner Inr by (simp add: Let_def)
        then have "kept (assign_value vs1 ?x v) vsF"
          using evaluate_substitute_kept by blast
        then show ?thesis using inner k2 kept_trans by auto
      qed
    qed
  qed
next
  case (after_formula equation variable variables dependencies formula n rt v variables')
  then show ?case by (auto simp: Let_def kept_refl)
next
  case (after_number equation variable variables dependencies x rt n)
  then show ?case by (auto simp: Let_def kept_refl)
qed

lemma chain_outcome:
  assumes "invokes\<^sup>*\<^sup>* c0 c" and "outcome c0 = Some (r, vsF)"
  shows "\<exists>r' vsF'. outcome c = Some (r', vsF') \<and> kept vsF' vsF"
  using assms
proof (induction rule: rtranclp_induct)
  case base
  then show ?case by (auto simp: kept_refl)
next
  case (step c c')
  then obtain r1 vs1 where o: "outcome c = Some (r1, vs1)" "kept vs1 vsF" by blast
  from invokes_outcome[OF step(2) o(1)] obtain r2 vs2 where
    "outcome c' = Some (r2, vs2)" "kept vs2 vs1" by blast
  then show ?case using o(2) kept_trans by blast
qed

lemma outcome_kept: "outcome c = Some (r, vs') \<Longrightarrow> kept (variables_of c) vs'"
  using evaluate_substitute_kept by (cases c) (simp; blast)+

text \<open>
  Claim C10. An error does not undo what was written to the variables. Whatever a call of
  \<open>evaluateEquation\<close> returns or throws, every call that it leads to, directly or through
  other calls, ends as well, and an entry that holds a Number when such a call starts or when
  it ends, returning or throwing, is the same entry in the variables that the first call
  leaves. Every write of line 81 is followed by the end of the call that makes it (line 87) or
  by the next test of its loop, which is such a call, so no Number written during an
  evaluation is lost on any path, in particular not when the evaluation of a formula throws
  after the variables below it have been resolved. The witness is that case,
  \<^verbatim>\<open>evaluate("x", {x: {value: "y+z"}, y: {value: "2"}})\<close>, which throws for \<^verbatim>\<open>z\<close> and leaves
  the Number 2 in \<^verbatim>\<open>y\<close>; it also has the evaluation
  \<^verbatim>\<open>evaluate("x+y", {x: {value: "2"}})\<close>, which throws for \<^verbatim>\<open>y\<close> and leaves the Number 2 in
  \<^verbatim>\<open>x\<close>.
\<close>

theorem no_rollback:
  assumes "evaluateEquation n rt equation variables dependencies = Some (r, variables')"
    and "invokes\<^sup>*\<^sup>* (Evaluate n rt equation variables dependencies) c"
  shows "\<exists>r1 variables1. outcome c = Some (r1, variables1) \<and>
           (\<forall>k var x. val var = Num x \<and> (variables_of c k = Some var \<or> variables1 k = Some var)
              \<longrightarrow> variables' k = Some var)"
proof -
  from chain_outcome[OF assms(2), of r variables'] assms(1) obtain r1 vs1 where
    o: "outcome c = Some (r1, vs1)" and k: "kept vs1 variables'" by auto
  have k0: "kept (variables_of c) variables'"
    using outcome_kept[OF o] k kept_trans by blast
  have "variables' k = Some var"
    if "val var = Num x" "variables_of c k = Some var \<or> vs1 k = Some var" for k var x
    using that kept_num[OF k0] kept_num[OF k] by blast
  then show ?thesis using o by blast
qed

theorem no_rollback_witness:
  "\<exists>variables'.
     evaluateEquation 8 js ''x'' ex_nested [] = Some (Inl (FailedToSubstitute ''z''), variables') \<and>
     value_of ex_nested ''y'' = Str ''2'' \<and>
     variables' ''y'' = Some \<lparr>name = ''y'', val = Num (Finite 2), disabled = False, comment = ''''\<rparr> \<and>
     value_of variables' ''x'' = Str ''y+z'' \<and>
     values_of [''x''] (evaluateEquation 6 js ''x+y'' ex_partial [])
       = Some (Inl (FailedToSubstitute ''y''), [Num (Finite 2)]) \<and>
     kind (FailedToSubstitute ''z'') = UndefinedVariable"
proof -
  let ?y2 = "assign_value ex_nested ''y'' (Num (Finite 2))"
  have top: "values_of [''x'', ''y''] (evaluateEquation 8 js ''x'' ex_nested [])
               = Some (Inl (FailedToSubstitute ''z''), [Str ''y+z'', Num (Finite 2)])"
    by code_simp
  then obtain vs' where
    r: "evaluateEquation 8 js ''x'' ex_nested [] = Some (Inl (FailedToSubstitute ''z''), vs')"
    and x: "value_of vs' ''x'' = Str ''y+z''"
    by (auto simp: values_of_def)
  have claim_example: "values_of [''x''] (evaluateEquation 6 js ''x+y'' ex_partial [])
       = Some (Inl (FailedToSubstitute ''y''), [Num (Finite 2)])"
    by code_simp
  have m1: "exec VARIABLEREG ''x'' = Some \<lparr>index = 0, matched = ''x'', groups = []\<rparr>"
    by code_simp
  have m2: "exec VARIABLEREG ''y+z'' = Some \<lparr>index = 0, matched = ''y'', groups = []\<rparr>"
    by code_simp
  have n2: "exec VARIABLEREG ''2'' = None" by code_simp
  have q: "\<not> startsWith ''x'' ''=''" "\<not> startsWith ''y+z'' ''=''" "\<not> startsWith ''2'' ''=''"
    by (simp_all add: startsWith_def)
  have vx: "\<not> is_undefined ex_nested ''x''" "\<not> is_disabled ex_nested ''x''"
    "value_of ex_nested ''x'' = Str ''y+z''"
    by (simp_all add: is_undefined_def is_disabled_def value_of_def ex_nested_def)
  have vy: "\<not> is_undefined ex_nested ''y''" "\<not> is_disabled ex_nested ''y''"
    "value_of ex_nested ''y'' = Str ''2''"
    by (simp_all add: is_undefined_def is_disabled_def value_of_def ex_nested_def)
  have i: "map_option fst (evaluateEquation 4 js ''2'' ex_nested [''x'', ''y''])
             = Some (Inr (Num (Finite 2)))"
    by code_simp
  then obtain vs1 where
    "evaluateEquation 4 js ''2'' ex_nested [''x'', ''y''] = Some (Inr (Num (Finite 2)), vs1)"
    by auto
  moreover from this have "vs1 = ex_nested"
    using no_identifier_state[OF n2, of 3 js ex_nested "[''x'', ''y'']"] q
    by (simp add: numeral_eq_Suc)
  ultimately have inner: "evaluateEquation 4 js ''2'' ex_nested ([''x''] @ [''y''])
      = Some (Inr (Num (Finite 2)), ex_nested)" by simp
  have s: "substitute js ''y+z'' 0 ''y'' (Num (Finite 2)) = ''2+z''" by code_simp
  have 1: "invokes (Evaluate 8 js ''x'' ex_nested []) (Substitute 7 js ''x'' ex_nested [])"
    using invokes.body[of 7 js "''x''" ex_nested "[]"] q by (simp add: numeral_eq_Suc)
  have 2: "invokes (Substitute 7 js ''x'' ex_nested []) (Evaluate 6 js ''y+z'' ex_nested [''x''])"
    using invokes.formula[OF m1, of ex_nested "[]" "''y+z''" 6 js] vx by (simp add: numeral_eq_Suc)
  have 3: "invokes (Evaluate 6 js ''y+z'' ex_nested [''x'']) (Substitute 5 js ''y+z'' ex_nested [''x''])"
    using invokes.body[of 5 js "''y+z''" ex_nested "[''x'']"] q by (simp add: numeral_eq_Suc)
  have 4: "invokes (Substitute 5 js ''y+z'' ex_nested [''x'']) (Substitute 4 js ''2+z'' ?y2 [''x''])"
    using invokes.after_formula[OF m2, of ex_nested "[''x'']" "''2''" 4 js "Num (Finite 2)" ex_nested]
      vy inner s
    by (simp add: numeral_eq_Suc)
  have chain: "invokes\<^sup>*\<^sup>* (Evaluate 8 js ''x'' ex_nested []) (Substitute 4 js ''2+z'' ?y2 [''x''])"
    using 1 2 3 4 by (meson rtranclp.rtrancl_into_rtrancl rtranclp.rtrancl_refl)
  have w: "?y2 ''y'' = Some \<lparr>name = ''y'', val = Num (Finite 2), disabled = False, comment = ''''\<rparr>"
    by (simp add: assign_value_def ex_nested_def)
  have "vs' ''y'' = Some \<lparr>name = ''y'', val = Num (Finite 2), disabled = False, comment = ''''\<rparr>"
    using no_rollback[OF r chain] w by fastforce
  then show ?thesis using r x vy(3) claim_example by auto
qed

end
